theory Spec2Isabelle
  imports Complex_Main
begin

section \<open>Data model\<close>

text \<open>
  A JavaScript number is an IEEE 754 binary64 value, a double. It is modelled as the real
  it denotes, and \<open>fl\<close> rounds a real to the nearest double, ties to the even
  significand, as every arithmetic operation of JavaScript does with its exact result.
  The rounding is kept wherever a result of the repository depends on it as an integer or
  as a bound: in each of the three operations of \<open>randomInRange\<close>, in the literals
  \<open>0.7\<close> and \<open>1.3\<close> it is called with, and in every product handed to
  \<open>Math.floor\<close>. All other arithmetic (the trigonometry and the products of the vertex
  loops, angles, velocities, the \<open>x\<close> of a spawned body, the canvas and Matter.js) is
  modelled without rounding, on reals, and every other decimal literal as the decimal it
  spells.
  \<open>Math.random()\<close> is an input: an infinite sequence of the values the following calls
  will return, consumed from the front.
\<close>

subsection \<open>Rounding to double precision\<close>

text \<open>The nearest integer, a tie going to the even one.\<close>

definition roundEven :: "real \<Rightarrow> int" where
  "roundEven y =
     (let f = \<lfloor>y\<rfloor>; d = y - of_int f
      in if d < 1 / 2 then f else if 1 / 2 < d then f + 1 else if even f then f else f + 1)"

text \<open>
  The exponent \<open>e\<close> of the binade \<open>[2^e, 2^(e + 1))\<close> of a number; the subnormal
  numbers share the exponent \<open>-1022\<close> of the smallest normal ones.
\<close>

definition binade :: "real \<Rightarrow> int" where
  "binade x = max \<lfloor>log 2 \<bar>x\<bar>\<rfloor> (- 1022)"

text \<open>
  Round to nearest, ties to even, with 53 significant bits: the doubles of a binade are
  the multiples of \<open>2^(e - 52)\<close>. Overflow to \<open>Infinity\<close> is not modelled; no
  number of the repository comes near \<open>2^1024\<close>.
\<close>

definition fl :: "real \<Rightarrow> real" where
  "fl x =
     (if x = 0 then 0
      else (let q = 2 powi (binade x - 52) in of_int (roundEven (x / q)) * q))"

subsection \<open>Values\<close>

text \<open>\<open>Matter.Vector\<close>: the fields \<open>x\<close> and \<open>y\<close>.\<close>

record vec =
  vx :: real
  vy :: real

datatype error = TypeError

text \<open>
  Reading \<open>xs[i]\<close> in JavaScript: \<open>undefined\<close> (here \<open>None\<close>) when the index
  is out of range.
\<close>

definition jsIndex :: "'a list \<Rightarrow> int \<Rightarrow> 'a option" where
  "jsIndex xs i = (if 0 \<le> i \<and> nat i < length xs then Some (xs ! nat i) else None)"

type_synonym rng = "nat \<Rightarrow> real"

definition rdrop :: "nat \<Rightarrow> rng \<Rightarrow> rng" where
  "rdrop k r = (\<lambda>i. r (i + k))"

definition Math_random :: "rng \<Rightarrow> real \<times> rng" where
  "Math_random r = (r 0, rdrop 1 r)"

text \<open>The contract of \<open>Math.random()\<close>: every value is a double in \<open>[0, 1)\<close>.\<close>

definition unitDraws :: "rng \<Rightarrow> bool" where
  "unitDraws r = (\<forall>i. 0 \<le> r i \<and> r i < 1 \<and> fl (r i) = r i)"

subsection \<open>Configuration constants (lib/matter-config.ts)\<close>

record physics_config =
  gravity :: vec
  enableSleeping :: bool
  positionIterations :: nat
  velocityIterations :: nat

definition PHYSICS_CONFIG :: physics_config where
  "PHYSICS_CONFIG = \<lparr>gravity = \<lparr>vx = 0, vy = 1\<rparr>, enableSleeping = True,
     positionIterations = 6, velocityIterations = 4\<rparr>"

record body_defaults =
  restitution :: real
  friction :: real
  frictionAir :: real
  density :: real

definition BODY_DEFAULTS :: body_defaults where
  "BODY_DEFAULTS = \<lparr>restitution = 8 / 10, friction = 1 / 10, frictionAir = 1 / 100,
     density = 1 / 1000\<rparr>"

definition COLORS :: "string list" where
  "COLORS = [''#FF00FF'', ''#00FF00'', ''#FFFF00'', ''#00FFFF'', ''#FF6B00'', ''#FF0080'',
     ''#80FF00'', ''#0080FF'']"

record style_config =
  sc_lineWidth :: real
  sc_shadowOffset :: real
  sc_shadowColor :: string
  sc_strokeColor :: string

definition STYLE_CONFIG :: style_config where
  "STYLE_CONFIG = \<lparr>sc_lineWidth = 1, sc_shadowOffset = 8, sc_shadowColor = ''#000000'',
     sc_strokeColor = ''#000000''\<rparr>"

record culling_config =
  bufferZone :: real

definition CULLING_CONFIG :: culling_config where
  "CULLING_CONFIG = \<lparr>bufferZone = 500\<rparr>"

subsection \<open>Bodies\<close>

text \<open>
  The arguments of the four \<open>Matter.Bodies\<close> constructors the repository calls:
  \<open>circle(x, y, radius)\<close>, \<open>rectangle(x, y, width, height)\<close>,
  \<open>polygon(x, y, sides, radius)\<close> and \<open>fromVertices(x, y, vertexSets)\<close>.
\<close>

datatype geometry =
  GCircle real
  | GRectangle real real
  | GPolygon nat real
  | GFromVertices "vec list list"

text \<open>\<open>body.render\<close>; an absent or \<open>undefined\<close> field is \<open>None\<close>.\<close>

record render =
  fillStyle :: "string option"
  strokeStyle :: "string option"
  lineWidth :: "real option"

text \<open>
  The fields of a \<open>Matter.Body\<close> that the repository passes, reads or writes.
  \<open>geometry\<close> records the constructor call that made the body; \<open>vertices\<close> are the
  world-space vertices, which Matter.js keeps translated and rotated with the body.
  The density of a static body is \<open>Infinity\<close>.
\<close>

datatype jsnumber = Num real | Infinity

record body_coefficients =
  c_restitution :: real
  c_friction :: real
  c_frictionAir :: real
  c_density :: jsnumber

record body =
  label :: string
  isStatic :: bool
  geometry :: geometry
  position :: vec
  angle :: real
  velocity :: vec
  force :: vec
  torque :: real
  circleRadius :: real
  vertices :: "vec list"
  coefficients :: body_coefficients
  render :: render

text \<open>
  The options object the repository hands to a constructor. A key it leaves out is
  \<open>None\<close> and takes the default of Matter.js.
\<close>

record body_options =
  o_isStatic :: "bool option"
  o_label :: "string option"
  o_restitution :: "real option"
  o_friction :: "real option"
  o_frictionAir :: "real option"
  o_density :: "real option"
  o_angle :: "real option"
  o_render :: render

text \<open>
  Matter.js computes the world-space vertices of a new body from the constructor's
  arguments, the position and the angle. That computation is library code, so it is a
  parameter of everything that creates a body.
\<close>

type_synonym matter_vertices = "geometry \<Rightarrow> vec \<Rightarrow> real \<Rightarrow> vec list"

definition orDefault :: "'a option \<Rightarrow> 'a \<Rightarrow> 'a" where
  "orDefault v d = (case v of None \<Rightarrow> d | Some a \<Rightarrow> a)"

text \<open>A value that \<open>!\<close> and \<open>||\<close> treat as false: absent, or the empty string.\<close>

definition falsy :: "string option \<Rightarrow> bool" where
  "falsy v = (case v of None \<Rightarrow> True | Some str \<Rightarrow> str = [])"

text \<open>
  \<open>Bodies.circle\<close> and its siblings, as far as the repository observes the result:
  the body sits at \<open>(x, y)\<close> with the angle, flags, coefficients and render style of
  the options (the defaults of Matter.js otherwise), at rest, and only a circle has a
  non-zero \<open>circleRadius\<close>. \<open>Bodies.polygon\<close> with fewer than three sides returns
  \<open>Bodies.circle\<close> of the same radius. Making a body static (\<open>Body.setStatic\<close>)
  overrides its restitution with 0, its friction with 1 and its density with
  \<open>Infinity\<close>. A render style the options leave out or give as a falsy value takes
  the default of Matter.js: for a static body the fill \<open>#14151f\<close>, the stroke
  \<open>#555\<close> and the line width 0 (1 when no fill was given); for any other body the
  stroke \<open>#ccc\<close> and the line width 0. Matter.js fills any other body that has no
  fill colour with one of five colours drawn from a generator of its own; every factory
  of the repository passes a fill colour, and the model leaves the field as it was passed.
\<close>

definition Bodies_create ::
  "matter_vertices \<Rightarrow> geometry \<Rightarrow> real \<Rightarrow> real \<Rightarrow> body_options \<Rightarrow> body" where
  "Bodies_create lib g x y opts =
     \<lparr>label = orDefault (o_label opts)
        (case g of
           GCircle radius \<Rightarrow> ''Circle Body''
         | GRectangle width height \<Rightarrow> ''Rectangle Body''
         | GPolygon sides radius \<Rightarrow> (if sides < 3 then ''Circle Body'' else ''Polygon Body'')
         | GFromVertices vertexSets \<Rightarrow> ''Body''),
      isStatic = orDefault (o_isStatic opts) False,
      geometry = g,
      position = \<lparr>vx = x, vy = y\<rparr>,
      angle = orDefault (o_angle opts) 0,
      velocity = \<lparr>vx = 0, vy = 0\<rparr>,
      force = \<lparr>vx = 0, vy = 0\<rparr>,
      torque = 0,
      circleRadius =
        (case g of
           GCircle radius \<Rightarrow> radius
         | GPolygon sides radius \<Rightarrow> (if sides < 3 then radius else 0)
         | _ \<Rightarrow> 0),
      vertices = lib g \<lparr>vx = x, vy = y\<rparr> (orDefault (o_angle opts) 0),
      coefficients =
        (if orDefault (o_isStatic opts) False
         then \<lparr>c_restitution = 0, c_friction = 1,
               c_frictionAir = orDefault (o_frictionAir opts) (1 / 100),
               c_density = Infinity\<rparr>
         else \<lparr>c_restitution = orDefault (o_restitution opts) 0,
               c_friction = orDefault (o_friction opts) (1 / 10),
               c_frictionAir = orDefault (o_frictionAir opts) (1 / 100),
               c_density = Num (orDefault (o_density opts) (1 / 1000))\<rparr>),
      render =
        (let static = orDefault (o_isStatic opts) False;
             given = o_render opts;
             defaultLineWidth = (if static \<and> fillStyle given = None then 1 else 0)
         in \<lparr>fillStyle =
               (if falsy (fillStyle given) \<and> static then Some ''#14151f'' else fillStyle given),
             strokeStyle =
               (if falsy (strokeStyle given) then Some (if static then ''#555'' else ''#ccc'')
                else strokeStyle given),
             lineWidth =
               (case lineWidth given of
                  None \<Rightarrow> Some defaultLineWidth
                | Some w \<Rightarrow> Some (if w = 0 then defaultLineWidth else w))\<rparr>)\<rparr>"

section \<open>Shape factory (lib/shape-factory.ts)\<close>

definition getRandomColor :: "rng \<Rightarrow> string option \<times> rng" where
  "getRandomColor r =
     (let (u, r') = Math_random r
      in (jsIndex COLORS \<lfloor>fl (u * real (length COLORS))\<rfloor>, r'))"

text \<open>
  \<open>Math.random() * (max - min) + min\<close>: the difference, the product and the sum are
  each rounded.
\<close>

definition randomInRange :: "real \<Rightarrow> real \<Rightarrow> rng \<Rightarrow> real \<times> rng" where
  "randomInRange lo hi r =
     (let (u, r') = Math_random r in (fl (fl (u * fl (hi - lo)) + lo), r'))"

text \<open>The options every factory passes; \<open>ang\<close> is the \<open>angle\<close> key where present.\<close>

definition shapeOptions :: "real option \<Rightarrow> string option \<Rightarrow> body_options" where
  "shapeOptions ang colour =
     \<lparr>o_isStatic = None, o_label = None,
      o_restitution = Some (restitution BODY_DEFAULTS),
      o_friction = Some (friction BODY_DEFAULTS),
      o_frictionAir = Some (frictionAir BODY_DEFAULTS),
      o_density = Some (density BODY_DEFAULTS),
      o_angle = ang,
      o_render = \<lparr>fillStyle = colour, strokeStyle = Some ''#000000'', lineWidth = Some 5\<rparr>\<rparr>"

definition createCircle :: "matter_vertices \<Rightarrow> rng \<Rightarrow> real \<Rightarrow> real \<Rightarrow> body \<times> rng" where
  "createCircle lib r x y =
     (let (radius, r1) = randomInRange 20 50 r;
          (colour, r2) = getRandomColor r1
      in (Bodies_create lib (GCircle radius) x y (shapeOptions None colour), r2))"

definition createRectangle :: "matter_vertices \<Rightarrow> rng \<Rightarrow> real \<Rightarrow> real \<Rightarrow> body \<times> rng" where
  "createRectangle lib r x y =
     (let (width, r1) = randomInRange 30 80 r;
          (height, r2) = randomInRange 30 80 r1;
          (u, r3) = Math_random r2;
          (colour, r4) = getRandomColor r3
      in (Bodies_create lib (GRectangle width height) x y
            (shapeOptions (Some (u * pi * 2)) colour), r4))"

definition createPolygon ::
  "nat \<Rightarrow> matter_vertices \<Rightarrow> rng \<Rightarrow> real \<Rightarrow> real \<Rightarrow> body \<times> rng" where
  "createPolygon sides lib r x y =
     (let (radius, r1) = randomInRange 25 45 r;
          (u, r2) = Math_random r1;
          (colour, r3) = getRandomColor r2
      in (Bodies_create lib (GPolygon sides radius) x y
            (shapeOptions (Some (u * pi * 2)) colour), r3))"

definition createTriangle :: "matter_vertices \<Rightarrow> rng \<Rightarrow> real \<Rightarrow> real \<Rightarrow> body \<times> rng" where
  "createTriangle = createPolygon 3"

definition createPentagon :: "matter_vertices \<Rightarrow> rng \<Rightarrow> real \<Rightarrow> real \<Rightarrow> body \<times> rng" where
  "createPentagon = createPolygon 5"

definition createHexagon :: "matter_vertices \<Rightarrow> rng \<Rightarrow> real \<Rightarrow> real \<Rightarrow> body \<times> rng" where
  "createHexagon = createPolygon 6"

definition createOctagon :: "matter_vertices \<Rightarrow> rng \<Rightarrow> real \<Rightarrow> real \<Rightarrow> body \<times> rng" where
  "createOctagon = createPolygon 8"

text \<open>
  The loop of \<open>createStar\<close>: \<open>for (let i = 0; i < points * 2; i++)\<close>, pushing one
  vertex per round.
\<close>

function starLoop :: "nat \<Rightarrow> nat \<Rightarrow> real \<Rightarrow> real \<Rightarrow> real \<Rightarrow> vec list \<Rightarrow> vec list" where
  "starLoop i points outerRadius innerRadius angleStep vs =
     (if i < points * 2
      then (let radius = (if i mod 2 = 0 then outerRadius else innerRadius);
                a = real i * angleStep - pi / 2
            in starLoop (Suc i) points outerRadius innerRadius angleStep
                 (vs @ [\<lparr>vx = cos a * radius, vy = sin a * radius\<rparr>]))
      else vs)"
  by pat_completeness auto
termination
  by (relation "measure (\<lambda>(i, points, _). points * 2 - i)") auto

definition createStar ::
  "nat \<Rightarrow> matter_vertices \<Rightarrow> rng \<Rightarrow> real \<Rightarrow> real \<Rightarrow> body \<times> rng" where
  "createStar points lib r x y =
     (let (outerRadius, r1) = randomInRange 30 50 r;
          innerRadius = outerRadius * (4 / 10);
          angleStep = (pi * 2) / real (points * 2);
          vs = starLoop 0 points outerRadius innerRadius angleStep [];
          (colour, r2) = getRandomColor r1
      in (Bodies_create lib (GFromVertices [vs]) x y (shapeOptions None colour), r2))"

definition create5PointStar :: "matter_vertices \<Rightarrow> rng \<Rightarrow> real \<Rightarrow> real \<Rightarrow> body \<times> rng" where
  "create5PointStar = createStar 5"

definition create6PointStar :: "matter_vertices \<Rightarrow> rng \<Rightarrow> real \<Rightarrow> real \<Rightarrow> body \<times> rng" where
  "create6PointStar = createStar 6"

text \<open>
  The loop of \<open>createIrregularPolygon\<close>: \<open>for (let i = 0; i < vertexCount; i++)\<close>.
  Each round draws its own jitter factor, between the doubles that the literals
  \<open>0.7\<close> and \<open>1.3\<close> denote. \<open>vertexCount\<close> is the result of \<open>Math.floor\<close>,
  an integer.
\<close>

function irregularLoop ::
  "nat \<Rightarrow> int \<Rightarrow> real \<Rightarrow> real \<Rightarrow> rng \<Rightarrow> vec list \<Rightarrow> vec list \<times> rng" where
  "irregularLoop i vertexCount baseRadius angleStep r vs =
     (if int i < vertexCount
      then (let (j, r') = randomInRange (fl (7 / 10)) (fl (13 / 10)) r;
                radius = baseRadius * j;
                a = real i * angleStep
            in irregularLoop (Suc i) vertexCount baseRadius angleStep r'
                 (vs @ [\<lparr>vx = cos a * radius, vy = sin a * radius\<rparr>]))
      else (vs, r))"
  by pat_completeness auto
termination
  by (relation "measure (\<lambda>(i, vertexCount, _). nat (vertexCount - int i))") auto

definition createIrregularPolygon ::
  "matter_vertices \<Rightarrow> rng \<Rightarrow> real \<Rightarrow> real \<Rightarrow> body \<times> rng" where
  "createIrregularPolygon lib r x y =
     (let (c, r1) = randomInRange 4 8 r;
          vertexCount = \<lfloor>c\<rfloor>;
          (baseRadius, r2) = randomInRange 25 45 r1;
          angleStep = (pi * 2) / real_of_int vertexCount;
          (vs, r3) = irregularLoop 0 vertexCount baseRadius angleStep r2 [];
          (colour, r4) = getRandomColor r3
      in (Bodies_create lib (GFromVertices [vs]) x y (shapeOptions None colour), r4))"

type_synonym shapeFactory = "matter_vertices \<Rightarrow> rng \<Rightarrow> real \<Rightarrow> real \<Rightarrow> body \<times> rng"

definition SHAPE_FACTORIES :: "shapeFactory list" where
  "SHAPE_FACTORIES =
     [createCircle, createRectangle, createTriangle, createPentagon, createHexagon,
      createOctagon, create5PointStar, create6PointStar, createIrregularPolygon]"

text \<open>
  \<open>createRandomShape\<close> with the array of factories as a parameter. Calling
  \<open>undefined\<close>, the value of an out-of-range read, throws a \<open>TypeError\<close>.
\<close>

definition createRandomShapeFrom ::
  "shapeFactory list \<Rightarrow> matter_vertices \<Rightarrow> rng \<Rightarrow> real \<Rightarrow> real \<Rightarrow> error + body \<times> rng" where
  "createRandomShapeFrom fs lib r x y =
     (let (u, r') = Math_random r
      in case jsIndex fs \<lfloor>fl (u * real (length fs))\<rfloor> of
           None \<Rightarrow> Inl TypeError
         | Some factory \<Rightarrow> Inr (factory lib r' x y))"

definition createRandomShape ::
  "matter_vertices \<Rightarrow> rng \<Rightarrow> real \<Rightarrow> real \<Rightarrow> error + body \<times> rng" where
  "createRandomShape = createRandomShapeFrom SHAPE_FACTORIES"

section \<open>Physics hook (hooks/use-matter.ts)\<close>

record config =
  physics :: physics_config
  bodyDefaults :: body_defaults
  culling :: culling_config

definition CONFIG :: config where
  "CONFIG = \<lparr>physics = PHYSICS_CONFIG, bodyDefaults = BODY_DEFAULTS, culling = CULLING_CONFIG\<rparr>"

text \<open>
  The state the hook and the canvas component share. Body objects live in \<open>objects\<close>
  under their identity; \<open>worldBodies\<close> is \<open>engine.world.bodies\<close>, the identities in
  insertion order. \<open>mouseConstraintBody\<close> is \<open>mouseConstraint.body\<close>, the body the
  drag constraint of Matter.js currently holds. \<open>timers\<close> are the pending
  \<open>setTimeout\<close> callbacks of the collision flash (due time, body, captured colour) in
  the order they were registered, and \<open>now\<close> is the clock in milliseconds. A reference
  in JavaScript always denotes an object; where a function below looks an identity up
  and finds none, it does nothing, a branch no identity handed out by \<open>useMatterEffect\<close>
  or \<open>addBody\<close> ever takes.
\<close>

record sim =
  engine :: physics_config
  runnerRunning :: bool
  objects :: "nat \<rightharpoonup> body"
  worldBodies :: "nat list"
  nextRef :: nat
  mouseConstraintBody :: "nat option"
  frameCount :: nat
  timers :: "(nat \<times> nat \<times> string option) list"
  now :: nat

definition wallOptions :: "string \<Rightarrow> body_options" where
  "wallOptions l =
     \<lparr>o_isStatic = Some True, o_label = Some l,
      o_restitution = None, o_friction = None, o_frictionAir = None, o_density = None,
      o_angle = None,
      o_render = \<lparr>fillStyle = Some ''transparent'', strokeStyle = None, lineWidth = None\<rparr>\<rparr>"

text \<open>
  The body of the effect of \<open>useMatter\<close> up to the point where the references are
  stored: \<open>None\<close> is the early return, \<open>Some\<close> the state with the engine created and
  the runner started. The configuration is a parameter; the source reads the module
  constants, \<open>CONFIG\<close>.
\<close>

definition useMatterEffect ::
  "config \<Rightarrow> matter_vertices \<Rightarrow> bool \<Rightarrow> nat \<Rightarrow> nat \<Rightarrow> sim option" where
  "useMatterEffect cfg lib canvas width height =
     (if \<not> canvas then None
      else if width = 0 \<or> height = 0 then None
      else
        (let wallThickness = 50;
             floor =
               Bodies_create lib (GRectangle (real width) wallThickness)
                 (real width / 2) (real height - wallThickness / 2) (wallOptions ''floor'');
             leftWall =
               Bodies_create lib (GRectangle wallThickness (real height))
                 (- wallThickness / 2) (real height / 2) (wallOptions ''leftWall'');
             rightWall =
               Bodies_create lib (GRectangle wallThickness (real height))
                 (real width + wallThickness / 2) (real height / 2) (wallOptions ''rightWall'')
         in Some
              \<lparr>engine =
                 \<lparr>gravity = \<lparr>vx = 0, vy = 5 / 10\<rparr>,
                  enableSleeping = enableSleeping (physics cfg),
                  positionIterations = positionIterations (physics cfg),
                  velocityIterations = velocityIterations (physics cfg)\<rparr>,
               runnerRunning = True,
               objects = [0 \<mapsto> floor, 1 \<mapsto> leftWall, 2 \<mapsto> rightWall],
               worldBodies = [0, 1, 2],
               nextRef = 3,
               mouseConstraintBody = None,
               frameCount = 0,
               timers = [],
               now = 0\<rparr>))"

text \<open>
  \<open>Matter.Body.applyForce(body, position, force)\<close>: adds the force and the torque it
  has about the centre of the body.
\<close>

definition Body_applyForce :: "body \<Rightarrow> vec \<Rightarrow> vec \<Rightarrow> body" where
  "Body_applyForce b p f =
     b\<lparr>force := \<lparr>vx = vx (force b) + vx f, vy = vy (force b) + vy f\<rparr>,
       torque := torque b
         + ((vx p - vx (position b)) * vy f - (vy p - vy (position b)) * vx f)\<rparr>"

text \<open>
  \<open>Matter.Body.setVelocity(body, velocity)\<close>: the body gets the velocity; what Matter.js
  derives from it (the previous position, the speed) is not among the fields of the
  record.
\<close>

definition Body_setVelocity :: "body \<Rightarrow> vec \<Rightarrow> body" where
  "Body_setVelocity b v = b\<lparr>velocity := v\<rparr>"

text \<open>The listener of the canvas's \<open>click\<close> event.\<close>

definition handleMouseClick :: "sim \<Rightarrow> sim" where
  "handleMouseClick s =
     (case mouseConstraintBody s of
        None \<Rightarrow> s
      | Some ref \<Rightarrow>
          (case objects s ref of
             None \<Rightarrow> s
           | Some b \<Rightarrow>
               if \<not> isStatic b
               then s\<lparr>objects := (objects s)
                      (ref \<mapsto> Body_applyForce b (position b) \<lparr>vx = 0, vy = - (5 / 100)\<rparr>)\<rparr>
               else s))"

text \<open>
  \<open>World.remove(world, bodies)\<close>: each listed body is looked up with \<open>indexOf\<close> and
  spliced out of \<open>world.bodies\<close>.
\<close>

definition World_remove :: "nat list \<Rightarrow> nat list \<Rightarrow> nat list" where
  "World_remove ws rs = fold remove1 rs ws"

text \<open>The test of \<open>cullOffscreenBodies\<close> on one body of the world.\<close>

definition offscreen :: "nat \<Rightarrow> sim \<Rightarrow> nat \<Rightarrow> bool" where
  "offscreen height s ref =
     (case objects s ref of
        None \<Rightarrow> False
      | Some b \<Rightarrow>
          (let cullThreshold = real height + bufferZone CULLING_CONFIG
           in \<not> isStatic b \<and> vy (position b) > cullThreshold))"

definition cullOffscreenBodies :: "nat \<Rightarrow> sim \<Rightarrow> sim" where
  "cullOffscreenBodies height s =
     (let bodiesToRemove = filter (offscreen height s) (worldBodies s)
      in if length bodiesToRemove > 0
         then s\<lparr>worldBodies := World_remove (worldBodies s) bodiesToRemove\<rparr>
         else s)"

text \<open>
  The listener of the engine's \<open>afterUpdate\<close> event, run at the end of every tick. The
  call of \<open>cullOffscreenBodies\<close> inside the branch is commented out in the source.
\<close>

definition afterUpdate :: "sim \<Rightarrow> sim" where
  "afterUpdate s =
     (let frameCount' = frameCount s + 1
      in if frameCount' \<ge> 60 then s\<lparr>frameCount := 0\<rparr> else s\<lparr>frameCount := frameCount'\<rparr>)"

text \<open>\<open>addBody\<close>: \<open>engineRef.current\<close> is \<open>None\<close> before the effect has run.\<close>

definition addBody :: "sim option \<Rightarrow> body \<Rightarrow> sim option" where
  "addBody engineRef b =
     (case engineRef of
        None \<Rightarrow> None
      | Some s \<Rightarrow>
          Some (s\<lparr>objects := (objects s)(nextRef s \<mapsto> b),
                  worldBodies := worldBodies s @ [nextRef s],
                  nextRef := Suc (nextRef s)\<rparr>))"

section \<open>Canvas component (components/physics-canvas.tsx)\<close>

subsection \<open>Collision flash\<close>

text \<open>
  One round of the inner \<open>forEach\<close> of \<open>handleCollision\<close>: save the colour, flash to
  white, and register the callback that writes the saved colour back after 100 ms.
\<close>

definition flashBody :: "nat \<Rightarrow> sim \<Rightarrow> sim" where
  "flashBody ref s =
     (case objects s ref of
        None \<Rightarrow> s
      | Some b \<Rightarrow>
          (let originalColor = fillStyle (render b)
           in s\<lparr>objects := (objects s)
                  (ref \<mapsto> b\<lparr>render := (render b)\<lparr>fillStyle := Some ''#FFFFFF''\<rparr>\<rparr>),
                timers := timers s @ [(now s + 100, ref, originalColor)]\<rparr>))"

definition isStaticRef :: "sim \<Rightarrow> nat \<Rightarrow> bool" where
  "isStaticRef s ref = (case objects s ref of None \<Rightarrow> False | Some b \<Rightarrow> isStatic b)"

definition flashPair :: "nat \<times> nat \<Rightarrow> sim \<Rightarrow> sim" where
  "flashPair pair s =
     (let (bodyA, bodyB) = pair;
          bodiesToFlash = filter (\<lambda>ref. \<not> isStaticRef s ref) [bodyA, bodyB]
      in fold flashBody bodiesToFlash s)"

text \<open>\<open>handleCollision\<close> on the \<open>pairs\<close> of a \<open>collisionStart\<close> event.\<close>

definition handleCollision :: "(nat \<times> nat) list \<Rightarrow> sim \<Rightarrow> sim" where
  "handleCollision pairs s = fold flashPair pairs s"

text \<open>The callback handed to \<open>setTimeout\<close>, with the colour it captured.\<close>

definition restoreColor :: "nat \<times> nat \<times> string option \<Rightarrow> sim \<Rightarrow> sim" where
  "restoreColor t s =
     (let (due, ref, originalColor) = t
      in case objects s ref of
           None \<Rightarrow> s
         | Some b \<Rightarrow>
             s\<lparr>objects := (objects s)
                 (ref \<mapsto> b\<lparr>render := (render b)\<lparr>fillStyle := originalColor\<rparr>\<rparr>)\<rparr>)"

text \<open>
  The browser's clock moves to \<open>t\<close>: every callback due by then runs, in the order in
  which the callbacks were registered (they all have the same delay), and leaves
  the queue.
\<close>

definition advanceTo :: "nat \<Rightarrow> sim \<Rightarrow> sim" where
  "advanceTo t s =
     (let due = filter (\<lambda>(d, ref, c). d \<le> t) (timers s);
          pending = filter (\<lambda>(d, ref, c). \<not> d \<le> t) (timers s)
      in fold restoreColor due (s\<lparr>timers := pending, now := max t (now s)\<rparr>))"

subsection \<open>Renderer\<close>

text \<open>
  The 2D context: the current transformation matrix \<open>(a, b, c, d, e, f)\<close> and the
  styles form the drawing state that \<open>save\<close> pushes and \<open>restore\<close> pops. A path
  point is stored in canvas coordinates, transformed when it is added; an arc keeps
  the matrix in force together with its own arguments.
\<close>

record matrix =
  ma :: real
  mb :: real
  mc :: real
  md :: real
  me :: real
  mf :: real

record drawing_state =
  transform :: matrix
  ctxFillStyle :: string
  ctxStrokeStyle :: string
  ctxLineWidth :: real
  shadowColor :: string
  shadowOffsetX :: real
  shadowOffsetY :: real
  shadowBlur :: real

datatype segment =
  MoveTo vec
  | LineTo vec
  | Arc matrix real real real real real
  | ClosePath

datatype painted =
  Fill "segment list" drawing_state
  | Stroke "segment list" drawing_state

record ctx =
  state :: drawing_state
  saved :: "drawing_state list"
  path :: "segment list"
  surface :: "painted list"

definition applyMatrix :: "matrix \<Rightarrow> real \<Rightarrow> real \<Rightarrow> vec" where
  "applyMatrix m px py =
     \<lparr>vx = ma m * px + mc m * py + me m, vy = mb m * px + md m * py + mf m\<rparr>"

definition ctx_save :: "ctx \<Rightarrow> ctx" where
  "ctx_save c = c\<lparr>saved := state c # saved c\<rparr>"

definition ctx_restore :: "ctx \<Rightarrow> ctx" where
  "ctx_restore c = (case saved c of [] \<Rightarrow> c | st # rest \<Rightarrow> c\<lparr>state := st, saved := rest\<rparr>)"

definition ctx_translate :: "real \<Rightarrow> real \<Rightarrow> ctx \<Rightarrow> ctx" where
  "ctx_translate tx ty c =
     (let m = transform (state c)
      in c\<lparr>state := (state c)\<lparr>transform :=
           m\<lparr>me := ma m * tx + mc m * ty + me m, mf := mb m * tx + md m * ty + mf m\<rparr>\<rparr>\<rparr>)"

definition ctx_rotate :: "real \<Rightarrow> ctx \<Rightarrow> ctx" where
  "ctx_rotate a c =
     (let m = transform (state c)
      in c\<lparr>state := (state c)\<lparr>transform :=
           m\<lparr>ma := ma m * cos a + mc m * sin a, mb := mb m * cos a + md m * sin a,
             mc := mc m * cos a - ma m * sin a, md := md m * cos a - mb m * sin a\<rparr>\<rparr>\<rparr>)"

definition ctx_beginPath :: "ctx \<Rightarrow> ctx" where
  "ctx_beginPath c = c\<lparr>path := []\<rparr>"

definition ctx_moveTo :: "real \<Rightarrow> real \<Rightarrow> ctx \<Rightarrow> ctx" where
  "ctx_moveTo px py c = c\<lparr>path := path c @ [MoveTo (applyMatrix (transform (state c)) px py)]\<rparr>"

definition ctx_lineTo :: "real \<Rightarrow> real \<Rightarrow> ctx \<Rightarrow> ctx" where
  "ctx_lineTo px py c = c\<lparr>path := path c @ [LineTo (applyMatrix (transform (state c)) px py)]\<rparr>"

definition ctx_arc :: "real \<Rightarrow> real \<Rightarrow> real \<Rightarrow> real \<Rightarrow> real \<Rightarrow> ctx \<Rightarrow> ctx" where
  "ctx_arc px py radius startAngle endAngle c =
     c\<lparr>path := path c @ [Arc (transform (state c)) px py radius startAngle endAngle]\<rparr>"

definition ctx_closePath :: "ctx \<Rightarrow> ctx" where
  "ctx_closePath c = c\<lparr>path := path c @ [ClosePath]\<rparr>"

definition ctx_fill :: "ctx \<Rightarrow> ctx" where
  "ctx_fill c = c\<lparr>surface := surface c @ [Fill (path c) (state c)]\<rparr>"

definition ctx_stroke :: "ctx \<Rightarrow> ctx" where
  "ctx_stroke c = c\<lparr>surface := surface c @ [Stroke (path c) (state c)]\<rparr>"

text \<open>\<open>clearRect(0, 0, canvas.width, canvas.height)\<close>: the whole canvas is blank again.\<close>

definition ctx_clear :: "ctx \<Rightarrow> ctx" where
  "ctx_clear c = c\<lparr>surface := []\<rparr>"

definition brutalistColors :: "string list" where
  "brutalistColors = [''#FF00FF'', ''#00FF00'', ''#FFFF00'', ''#00FFFF'', ''#FF6B00'',
     ''#FF0080'', ''#80FF00'', ''#0080FF'']"

text \<open>The loop \<open>for (let i = 1; i < vertices.length; i++)\<close> of the polygon branch.\<close>

function lineLoop :: "nat \<Rightarrow> vec list \<Rightarrow> vec \<Rightarrow> ctx \<Rightarrow> ctx" where
  "lineLoop i vs p c =
     (if i < length vs
      then lineLoop (Suc i) vs p (ctx_lineTo (vx (vs ! i) - vx p) (vy (vs ! i) - vy p) c)
      else c)"
  by pat_completeness auto
termination
  by (relation "measure (\<lambda>(i, vs, _). length vs - i)") auto

text \<open>
  The callback of \<open>world.bodies.forEach\<close> in \<open>render\<close>, for one body. It returns the
  body (the fill colour may have been filled in), the rest of the random sequence and
  the context; reading \<open>vertices[0].x\<close> of an empty array throws.
\<close>

definition renderBody :: "body \<Rightarrow> rng \<Rightarrow> ctx \<Rightarrow> error + body \<times> rng \<times> ctx" where
  "renderBody b r c =
     (if isStatic b then Inr (b, r, c)
      else
        (let c1 = ctx_save c;
             c2 = ctx_translate (vx (position b)) (vy (position b)) c1;
             c3 = ctx_rotate (angle b) c2;
             (b', r') =
               (if falsy (fillStyle (render b))
                then (let (u, r1) = Math_random r
                      in (b\<lparr>render := (render b)\<lparr>fillStyle :=
                              jsIndex brutalistColors
                                \<lfloor>fl (u * real (length brutalistColors))\<rfloor>\<rparr>\<rparr>,
                          r1))
                else (b, r));
             c4 = c3\<lparr>state := (state c3)
                    \<lparr>ctxFillStyle := orDefault (fillStyle (render b')) (ctxFillStyle (state c3)),
                     ctxStrokeStyle := sc_strokeColor STYLE_CONFIG,
                     ctxLineWidth := sc_lineWidth STYLE_CONFIG,
                     shadowColor := sc_shadowColor STYLE_CONFIG,
                     shadowOffsetX := sc_shadowOffset STYLE_CONFIG,
                     shadowOffsetY := sc_shadowOffset STYLE_CONFIG,
                     shadowBlur := 0\<rparr>\<rparr>
         in if circleRadius b' \<noteq> 0
            then Inr (b', r',
                   ctx_restore (ctx_stroke (ctx_fill
                     (ctx_arc 0 0 (circleRadius b') 0 (pi * 2) (ctx_beginPath c4)))))
            else
              (case vertices b' of
                 [] \<Rightarrow> Inl TypeError
               | v0 # _ \<Rightarrow>
                   Inr (b', r',
                     ctx_restore (ctx_stroke (ctx_fill (ctx_closePath
                       (lineLoop 1 (vertices b') (position b')
                          (ctx_moveTo (vx v0 - vx (position b')) (vy v0 - vy (position b'))
                             (ctx_beginPath c4))))))))))"

text \<open>\<open>world.bodies.forEach\<close>: the bodies in order; an exception leaves the loop.\<close>

fun renderBodies :: "nat list \<Rightarrow> (nat \<rightharpoonup> body) \<Rightarrow> rng \<Rightarrow> ctx \<Rightarrow> error + (nat \<rightharpoonup> body) \<times> rng \<times> ctx" where
  "renderBodies [] objs r c = Inr (objs, r, c)"
| "renderBodies (ref # refs) objs r c =
     (case objs ref of
        None \<Rightarrow> renderBodies refs objs r c
      | Some b \<Rightarrow>
          (case renderBody b r c of
             Inl e \<Rightarrow> Inl e
           | Inr (b', r', c') \<Rightarrow> renderBodies refs (objs(ref \<mapsto> b')) r' c'))"

text \<open>One frame of \<open>render\<close>: clear the canvas, then draw the world.\<close>

definition renderFrame :: "sim \<Rightarrow> rng \<Rightarrow> ctx \<Rightarrow> error + sim \<times> rng \<times> ctx" where
  "renderFrame s r c =
     (case renderBodies (worldBodies s) (objects s) r (ctx_clear c) of
        Inl e \<Rightarrow> Inl e
      | Inr (objs, r', c') \<Rightarrow> Inr (s\<lparr>objects := objs\<rparr>, r', c'))"

text \<open>A context as \<open>getContext('2d')\<close> returns it.\<close>

definition freshCtx :: ctx where
  "freshCtx =
     \<lparr>state =
        \<lparr>transform = \<lparr>ma = 1, mb = 0, mc = 0, md = 1, me = 0, mf = 0\<rparr>,
         ctxFillStyle = ''#000000'', ctxStrokeStyle = ''#000000'', ctxLineWidth = 1,
         shadowColor = ''rgba(0, 0, 0, 0)'', shadowOffsetX = 0, shadowOffsetY = 0,
         shadowBlur = 0\<rparr>,
      saved = [], path = [], surface = []\<rparr>"

subsection \<open>Spawning\<close>

text \<open>The loop \<open>for (let i = 0; i < count; i++)\<close> of the spawn effect.\<close>

function spawnLoop ::
  "nat \<Rightarrow> int \<Rightarrow> nat \<Rightarrow> matter_vertices \<Rightarrow> rng \<Rightarrow> sim option \<Rightarrow> error + sim option \<times> rng" where
  "spawnLoop i count width lib r engineRef =
     (if int i < count
      then (let (u, r1) = Math_random r;
                x = u * real width;
                y = - 50
            in case createRandomShape lib r1 x y of
                 Inl e \<Rightarrow> Inl e
               | Inr (shape, r2) \<Rightarrow>
                   (let (u1, r3) = Math_random r2;
                        (u2, r4) = Math_random r3;
                        initialVelocity = \<lparr>vx = (u1 - 5 / 10) * 2, vy = u2 * 2\<rparr>
                    in spawnLoop (Suc i) count width lib r4
                         (addBody engineRef (Body_setVelocity shape initialVelocity))))
      else Inr (engineRef, r))"
  by pat_completeness auto
termination
  by (relation "measure (\<lambda>(i, count, _). nat (count - int i))") auto

text \<open>
  The spawn effect, run when \<open>spawnCount\<close> or the dimensions change. \<open>canvas\<close> tells
  whether \<open>canvasRef.current\<close> is set.
\<close>

definition spawnEffect ::
  "nat \<Rightarrow> bool \<Rightarrow> nat \<Rightarrow> nat \<Rightarrow> matter_vertices \<Rightarrow> rng \<Rightarrow> sim option
     \<Rightarrow> error + sim option \<times> rng" where
  "spawnEffect spawnCount canvas width height lib r engineRef =
     (if spawnCount = 0 then Inr (engineRef, r)
      else if \<not> canvas then Inr (engineRef, r)
      else if width = 0 \<or> height = 0 then Inr (engineRef, r)
      else (let (u, r1) = Math_random r;
                count = \<lfloor>fl (u * 21)\<rfloor> + 30
            in spawnLoop 0 count width lib r1 engineRef))"

section \<open>Closed forms used in the proofs\<close>

text \<open>The vertex that round \<open>k\<close> of the loop of \<open>createStar\<close> pushes.\<close>

definition starVertex :: "real \<Rightarrow> real \<Rightarrow> real \<Rightarrow> nat \<Rightarrow> vec" where
  "starVertex outerRadius innerRadius angleStep k =
     \<lparr>vx = cos (real k * angleStep - pi / 2) * (if even k then outerRadius else innerRadius),
      vy = sin (real k * angleStep - pi / 2) * (if even k then outerRadius else innerRadius)\<rparr>"

text \<open>The jitter factor that \<open>randomInRange(0.7, 1.3)\<close> makes of the draw \<open>u\<close>.\<close>

definition jitter :: "real \<Rightarrow> real" where
  "jitter u = fl (fl (u * fl (fl (13 / 10) - fl (7 / 10))) + fl (7 / 10))"

text \<open>
  The vertex that round \<open>k\<close> of the loop of \<open>createIrregularPolygon\<close> pushes when its
  random draw is \<open>u\<close>.
\<close>

definition jitterVertex :: "real \<Rightarrow> real \<Rightarrow> nat \<Rightarrow> real \<Rightarrow> vec" where
  "jitterVertex baseRadius angleStep k u =
     \<lparr>vx = cos (real k * angleStep) * (baseRadius * jitter u),
      vy = sin (real k * angleStep) * (baseRadius * jitter u)\<rparr>"

text \<open>A factory places its body at \<open>(x, y)\<close> and moves the random sequence on.\<close>

definition placesAt :: "shapeFactory \<Rightarrow> bool" where
  "placesAt f =
     (\<forall>lib r x y. \<exists>b k. f lib r x y = (b, rdrop k r) \<and> position b = \<lparr>vx = x, vy = y\<rparr>)"

definition identityMatrix :: matrix where
  "identityMatrix = \<lparr>ma = 1, mb = 0, mc = 0, md = 1, me = 0, mf = 0\<rparr>"

text \<open>
  Where the transform that \<open>renderBody\<close> sets up for body \<open>b\<close> puts the point that the
  polygon branch passes for vertex \<open>v\<close>: \<open>v - position\<close>, rotated by the angle of the
  body, moved to its position.
\<close>

definition drawnVertex :: "body \<Rightarrow> vec \<Rightarrow> vec" where
  "drawnVertex b v =
     \<lparr>vx = vx (position b) + (vx v - vx (position b)) * cos (angle b)
             - (vy v - vy (position b)) * sin (angle b),
      vy = vy (position b) + (vx v - vx (position b)) * sin (angle b)
             + (vy v - vy (position b)) * cos (angle b)\<rparr>"

text \<open>A body with its fill colour blanked: everything but \<open>render.fillStyle\<close>.\<close>

definition eraseFill :: "body \<Rightarrow> body" where
  "eraseFill b = b\<lparr>render := (render b)\<lparr>fillStyle := None\<rparr>\<rparr>"

text \<open>
  Between two states, nothing but fill colours of non-static bodies differs: every body
  object is the same up to its fill colour, and a static body is the same altogether.
\<close>

definition cosmeticOnly :: "sim \<Rightarrow> sim \<Rightarrow> bool" where
  "cosmeticOnly s s' =
     ((\<forall>ref. map_option eraseFill (objects s' ref) = map_option eraseFill (objects s ref))
      \<and> (\<forall>ref b. objects s ref = Some b \<and> isStatic b \<longrightarrow> objects s' ref = Some b))"

section \<open>Example states\<close>

text \<open>
  An 800 by 600 canvas after the effect of \<open>useMatter\<close> has run, with one more body
  added: a magenta circle at \<open>(100, 5000)\<close>, far below the floor. The three walls are
  bodies 0, 1 and 2; the circle is body 3.
\<close>

definition fallenWorld :: "sim option" where
  "fallenWorld =
     addBody (useMatterEffect CONFIG (\<lambda>g p a. []) True 800 600)
       (Bodies_create (\<lambda>g p a. []) (GCircle 30) 100 5000
          (shapeOptions None (Some ''#FF00FF'')))"

text \<open>
  The same canvas with a magenta circle above the floor as body 3, held by the mouse
  constraint.
\<close>

definition heldWorld :: "sim option" where
  "heldWorld =
     map_option (\<lambda>s. s\<lparr>mouseConstraintBody := Some 3\<rparr>)
       (addBody (useMatterEffect CONFIG (\<lambda>g p a. []) True 800 600)
          (Bodies_create (\<lambda>g p a. []) (GCircle 30) 100 300
             (shapeOptions None (Some ''#FF00FF''))))"

text \<open>
  The same canvas with two circles side by side on the floor: body 3 is magenta, body 4
  green.
\<close>

definition collisionWorld :: "sim option" where
  "collisionWorld =
     addBody
       (addBody (useMatterEffect CONFIG (\<lambda>g p a. []) True 800 600)
          (Bodies_create (\<lambda>g p a. []) (GCircle 30) 100 545
             (shapeOptions None (Some ''#FF00FF''))))
       (Bodies_create (\<lambda>g p a. []) (GCircle 30) 160 545
          (shapeOptions None (Some ''#00FF00'')))"

text \<open>
  A 40 by 20 rectangle at \<open>(100, 100)\<close>, turned by a quarter turn: its world-space
  vertices are those of the upright rectangle of width 20 and height 40.
\<close>

definition rotatedRect :: body where
  "rotatedRect =
     \<lparr>label = ''Rectangle Body'', isStatic = False, geometry = GRectangle 40 20,
      position = \<lparr>vx = 100, vy = 100\<rparr>, angle = pi / 2,
      velocity = \<lparr>vx = 0, vy = 0\<rparr>, force = \<lparr>vx = 0, vy = 0\<rparr>, torque = 0,
      circleRadius = 0,
      vertices = [\<lparr>vx = 110, vy = 80\<rparr>, \<lparr>vx = 110, vy = 120\<rparr>, \<lparr>vx = 90, vy = 120\<rparr>,
                  \<lparr>vx = 90, vy = 80\<rparr>],
      coefficients =
        \<lparr>c_restitution = 8 / 10, c_friction = 1 / 10, c_frictionAir = 1 / 100,
         c_density = Num (1 / 1000)\<rparr>,
      render = \<lparr>fillStyle = Some ''#FF00FF'', strokeStyle = Some ''#000000'',
                lineWidth = Some 5\<rparr>\<rparr>"

text \<open>Every call of \<open>Math.random()\<close> returns the largest double below 1.\<close>

definition topDraws :: rng where
  "topDraws = (\<lambda>i. 1 - 1 / 2 ^ 53)"

text \<open>Every call of \<open>Math.random()\<close> returns \<open>2001599834386887 / 2^52\<close>, a double.\<close>

definition tieDraws :: rng where
  "tieDraws = (\<lambda>i. 2001599834386887 / 4503599627370496)"

section \<open>Rounding to double precision: bounds and evaluation\<close>

text \<open>
  The facts about \<open>fl\<close> that the proofs below use: it is monotone, it fixes the
  integers of at most 53 bits, its error is half a unit in the last place, and it can be
  evaluated at a number whose binade is known.
\<close>

lemma roundEven_range: "\<lfloor>y\<rfloor> \<le> roundEven y \<and> roundEven y \<le> \<lfloor>y\<rfloor> + 1"
  by (simp add: roundEven_def Let_def)

lemma roundEven_of_int [simp]: "roundEven (of_int n) = n"
  by (simp add: roundEven_def)

lemma roundEven_mono:
  assumes "a \<le> b"
  shows "roundEven a \<le> roundEven b"
proof -
  have fl: "\<lfloor>a\<rfloor> \<le> \<lfloor>b\<rfloor>" using assms by (rule floor_mono)
  show ?thesis
  proof (cases "\<lfloor>a\<rfloor> = \<lfloor>b\<rfloor>")
    case True
    then have "a - of_int \<lfloor>a\<rfloor> \<le> b - of_int \<lfloor>b\<rfloor>" using assms by simp
    with True show ?thesis by (auto simp: roundEven_def Let_def)
  next
    case False
    with fl have "\<lfloor>a\<rfloor> + 1 \<le> \<lfloor>b\<rfloor>" by simp
    with roundEven_range[of a] roundEven_range[of b] show ?thesis by linarith
  qed
qed

lemma roundEven_le: "y \<le> of_int n \<Longrightarrow> roundEven y \<le> n"
  using roundEven_mono[of y "of_int n"] by simp

lemma roundEven_ge: "of_int n \<le> y \<Longrightarrow> n \<le> roundEven y"
  using roundEven_mono[of "of_int n" y] by simp

lemma roundEven_error: "\<bar>of_int (roundEven y) - y\<bar> \<le> 1 / 2"
proof -
  have "of_int \<lfloor>y\<rfloor> \<le> y" "y < of_int \<lfloor>y\<rfloor> + 1" by linarith+
  then show ?thesis by (auto simp: roundEven_def Let_def abs_if; linarith)
qed

lemma floor_log2_bounds:
  assumes "0 < x"
  shows "2 powi \<lfloor>log 2 x\<rfloor> \<le> x" "x < 2 powi (\<lfloor>log 2 x\<rfloor> + 1)"
proof -
  have p1: "(2::real) powr real_of_int k = 2 powi k" for k
    by (rule powr_real_of_int') simp_all
  have p2: "(2::real) powr (real_of_int k + 1) = 2 powi (k + 1)" for k
    using p1[of "k + 1"] by simp
  have "2 powr real_of_int \<lfloor>log 2 x\<rfloor> \<le> x \<and> x < 2 powr (real_of_int \<lfloor>log 2 x\<rfloor> + 1)"
    using floor_log_eq_powr_iff[of x 2 "\<lfloor>log 2 x\<rfloor>"] assms by simp
  then show "2 powi \<lfloor>log 2 x\<rfloor> \<le> x" "x < 2 powi (\<lfloor>log 2 x\<rfloor> + 1)"
    unfolding p1 p2 by simp_all
qed

lemma floor_log2_eq:
  assumes "2 powi e \<le> x" "x < 2 powi (e + 1)"
  shows "\<lfloor>log 2 x\<rfloor> = e"
proof -
  have "0 < (2::real) powi e" by simp
  with assms(1) have x: "0 < x" by linarith
  have p1: "(2::real) powr real_of_int k = 2 powi k" for k
    by (rule powr_real_of_int') simp_all
  have p2: "(2::real) powr (real_of_int k + 1) = 2 powi (k + 1)" for k
    using p1[of "k + 1"] by simp
  have "2 powr real_of_int e \<le> x \<and> x < 2 powr (real_of_int e + 1)"
    unfolding p1 p2 using assms by simp
  then show ?thesis using floor_log_eq_powr_iff[OF x, of 2 e] by simp
qed

lemma binade_eq:
  assumes "2 powi e \<le> \<bar>x\<bar>" "\<bar>x\<bar> < 2 powi (e + 1)" "- 1022 \<le> e"
  shows "binade x = e"
  using floor_log2_eq[OF assms(1,2)] assms(3) by (simp add: binade_def)

lemma fl_eval:
  assumes "2 powi e \<le> \<bar>x\<bar>" "\<bar>x\<bar> < 2 powi (e + 1)" "- 1022 \<le> e"
  shows "fl x = of_int (roundEven (x / 2 powi (e - 52))) * 2 powi (e - 52)"
proof -
  have "0 < (2::real) powi e" by simp
  with assms(1) have "0 < \<bar>x\<bar>" by linarith
  then have "x \<noteq> 0" by simp
  then show ?thesis by (simp add: fl_def binade_eq[OF assms] Let_def)
qed

lemma binade_upper: "x \<noteq> 0 \<Longrightarrow> \<bar>x\<bar> < 2 powi (binade x + 1)"
proof -
  assume "x \<noteq> 0"
  then have p: "0 < \<bar>x\<bar>" by simp
  have "\<bar>x\<bar> < 2 powi (\<lfloor>log 2 \<bar>x\<bar>\<rfloor> + 1)" by (rule floor_log2_bounds(2)[OF p])
  also have "\<dots> \<le> 2 powi (binade x + 1)"
    by (rule power_int_increasing) (simp_all add: binade_def)
  finally show ?thesis .
qed

lemma binade_lower: "x \<noteq> 0 \<Longrightarrow> - 1022 < binade x \<Longrightarrow> 2 powi binade x \<le> \<bar>x\<bar>"
proof -
  assume "x \<noteq> 0" and b: "- 1022 < binade x"
  then have p: "0 < \<bar>x\<bar>" by simp
  from b have "binade x = \<lfloor>log 2 \<bar>x\<bar>\<rfloor>" by (simp add: binade_def max_def split: if_splits)
  with floor_log2_bounds(1)[OF p] show ?thesis by simp
qed

lemma binade_mono: "0 < x \<Longrightarrow> x \<le> y \<Longrightarrow> binade x \<le> binade y"
proof -
  assume x: "0 < x" and le: "x \<le> y"
  then have "log 2 x \<le> log 2 y" by simp
  then have "\<lfloor>log 2 x\<rfloor> \<le> \<lfloor>log 2 y\<rfloor>" by (rule floor_mono)
  then show ?thesis using x le by (simp add: binade_def)
qed

lemma fl_nonneg: "0 \<le> x \<Longrightarrow> 0 \<le> fl x"
proof -
  assume x: "0 \<le> x"
  have "0 \<le> x / 2 powi (binade x - 52)" using x by simp
  then have "0 \<le> roundEven (x / 2 powi (binade x - 52))"
    using roundEven_ge[of 0] by simp
  then show ?thesis by (simp add: fl_def Let_def)
qed

lemma fl_mono:
  assumes "0 \<le> x" "x \<le> y"
  shows "fl x \<le> fl y"
proof (cases "x = 0")
  case True
  then show ?thesis using fl_nonneg[of y] assms by (simp add: fl_def)
next
  case False
  then have x: "0 < x" using assms by simp
  then have y: "0 < y" using assms by simp
  let ?bx = "binade x" and ?by = "binade y"
  let ?qx = "(2::real) powi (?bx - 52)" and ?qy = "(2::real) powi (?by - 52)"
  have flx: "fl x = of_int (roundEven (x / ?qx)) * ?qx" using x by (simp add: fl_def Let_def)
  have fly: "fl y = of_int (roundEven (y / ?qy)) * ?qy" using y by (simp add: fl_def Let_def)
  have b: "?bx \<le> ?by" by (rule binade_mono[OF x assms(2)])
  show ?thesis
  proof (cases "?bx = ?by")
    case True
    have "x / ?qx \<le> y / ?qx" using assms(2) by (simp add: divide_right_mono)
    then have "roundEven (x / ?qx) \<le> roundEven (y / ?qx)" by (rule roundEven_mono)
    then have "of_int (roundEven (x / ?qx)) * ?qx \<le> of_int (roundEven (y / ?qx)) * ?qx"
      by (simp add: mult_right_mono)
    then show ?thesis unfolding flx fly True .
  next
    case False
    then have lt: "?bx + 1 \<le> ?by" using b by simp
    then have big: "- 1022 < ?by" by (simp add: binade_def)
    have xu: "x < 2 powi (?bx + 1)" using binade_upper[of x] x by simp
    have yl: "2 powi ?by \<le> y" using binade_lower[of y] y big by simp
    have s1: "(2::real) powi (?bx + 1) = 2 ^ 53 * ?qx"
    proof -
      have e1: "?bx + 1 = 53 + (?bx - 52)" by simp
      have "(2::real) powi (?bx + 1) = 2 powi 53 * ?qx"
        by (subst e1, subst power_int_add) simp_all
      then show ?thesis by simp
    qed
    have s2: "(2::real) powi ?by = 2 ^ 52 * ?qy"
    proof -
      have e2: "?by = 52 + (?by - 52)" by simp
      have "(2::real) powi ?by = 2 powi 52 * ?qy"
        by (subst e2, subst power_int_add) simp_all
      then show ?thesis by simp
    qed
    have "x / ?qx \<le> of_int (2 ^ 53)"
      using xu unfolding s1 by (simp add: divide_le_eq)
    then have "roundEven (x / ?qx) \<le> 2 ^ 53" by (rule roundEven_le)
    then have "of_int (roundEven (x / ?qx)) \<le> (2 ^ 53 :: real)"
      by (metis of_int_le_iff of_int_numeral of_int_power)
    then have a: "fl x \<le> 2 powi (?bx + 1)"
      unfolding flx s1 by (simp add: mult_right_mono)
    have "of_int (2 ^ 52) \<le> y / ?qy"
      using yl unfolding s2 by (simp add: le_divide_eq)
    then have "2 ^ 52 \<le> roundEven (y / ?qy)" by (rule roundEven_ge)
    then have "(2 ^ 52 :: real) \<le> of_int (roundEven (y / ?qy))"
      by (metis of_int_le_iff of_int_numeral of_int_power)
    then have c: "2 powi ?by \<le> fl y"
      unfolding fly s2 by (simp add: mult_right_mono)
    have "(2::real) powi (?bx + 1) \<le> 2 powi ?by"
      using lt by (intro power_int_increasing) simp_all
    with a c show ?thesis by linarith
  qed
qed

lemma fl_0 [simp]: "fl 0 = 0"
  by (simp add: fl_def)

lemma binade_pos: "0 < x \<Longrightarrow> binade x = max \<lfloor>log 2 x\<rfloor> (- 1022)"
  by (simp add: binade_def)

lemma powi_neg_nat: "(2::real) powi (- int n) = 1 / 2 ^ n"
  by (simp add: power_int_minus divide_inverse)

lemma fl_le_top:
  assumes "0 < x"
  shows "fl x \<le> 2 powi (binade x + 1)"
proof -
  let ?q = "(2::real) powi (binade x - 52)"
  have flx: "fl x = of_int (roundEven (x / ?q)) * ?q" using assms by (simp add: fl_def Let_def)
  have e1: "binade x + 1 = 53 + (binade x - 52)" by simp
  have s1: "(2::real) powi (binade x + 1) = 2 ^ 53 * ?q"
    by (subst e1, subst power_int_add) simp_all
  have "x < 2 powi (binade x + 1)" using binade_upper[of x] assms by simp
  then have "x / ?q \<le> of_int (2 ^ 53)" unfolding s1 by (simp add: divide_le_eq)
  then have "roundEven (x / ?q) \<le> 2 ^ 53" by (rule roundEven_le)
  then have "of_int (roundEven (x / ?q)) \<le> (2 ^ 53 :: real)"
    by (metis of_int_le_iff of_int_numeral of_int_power)
  then show ?thesis unfolding flx s1 by (simp add: mult_right_mono)
qed

lemma fl_error:
  assumes "x \<noteq> 0"
  shows "\<bar>fl x - x\<bar> \<le> 2 powi (binade x - 53)"
proof -
  let ?q = "(2::real) powi (binade x - 52)"
  have q: "0 < ?q" by simp
  have flx: "fl x = of_int (roundEven (x / ?q)) * ?q" using assms by (simp add: fl_def Let_def)
  have "fl x - x = (of_int (roundEven (x / ?q)) - x / ?q) * ?q"
    unfolding flx using q by (simp add: algebra_simps)
  then have "\<bar>fl x - x\<bar> = \<bar>of_int (roundEven (x / ?q)) - x / ?q\<bar> * ?q"
    using q by (simp add: abs_mult)
  also have "\<dots> \<le> 1 / 2 * ?q"
    using roundEven_error[of "x / ?q"] q by (intro mult_right_mono) simp_all
  also have "1 / 2 * ?q = 2 powi (binade x - 53)"
  proof -
    have e: "binade x - 52 = 1 + (binade x - 53)" by simp
    have "?q = 2 powi 1 * 2 powi (binade x - 53)"
      by (subst e, subst power_int_add) simp_all
    then show ?thesis by simp
  qed
  finally show ?thesis .
qed

text \<open>An integer of at most 53 bits is a double.\<close>

lemma fl_int:
  assumes "0 \<le> k" "k \<le> 2 ^ 53"
  shows "fl (of_int k) = of_int k"
proof (cases "k = 0")
  case True
  then show ?thesis by simp
next
  case False
  then have k: "1 \<le> k" using assms by simp
  let ?x = "real_of_int k"
  have x: "0 < ?x" using k by simp
  let ?e = "\<lfloor>log 2 ?x\<rfloor>"
  have lo: "2 powi ?e \<le> ?x" and hi: "?x < 2 powi (?e + 1)"
    using floor_log2_bounds[OF x] by simp_all
  have e0: "0 \<le> ?e"
  proof -
    have "0 \<le> log 2 ?x" using k by simp
    then show ?thesis by simp
  qed
  have b: "binade ?x = ?e" using e0 binade_pos[OF x] by linarith
  have flx: "fl ?x = of_int (roundEven (?x / 2 powi (?e - 52))) * 2 powi (?e - 52)"
    using x by (simp add: fl_def Let_def b)
  show ?thesis
  proof (cases "?e \<le> 52")
    case True
    let ?n = "nat (52 - ?e)"
    have en: "?e - 52 = - int ?n" using True by simp
    have p: "(2::real) powi (?e - 52) = 1 / 2 ^ ?n"
      by (simp only: en powi_neg_nat)
    have "?x / 2 powi (?e - 52) = of_int (k * 2 ^ ?n)" unfolding p by simp
    then have "roundEven (?x / 2 powi (?e - 52)) = k * 2 ^ ?n" by (simp only: roundEven_of_int)
    then show ?thesis unfolding flx p by simp
  next
    case False
    then have "53 \<le> ?e" by simp
    then have "(2::real) powi 53 \<le> 2 powi ?e" by (intro power_int_increasing) simp_all
    with lo have "(2::real) ^ 53 \<le> ?x" by simp
    then have "(2::int) ^ 53 \<le> k" by (metis of_int_le_iff of_int_numeral of_int_power)
    with assms(2) have k53: "k = 2 ^ 53" by simp
    have "fl (2 ^ 53) = 2 ^ 53"
      using fl_eval[of 53 "2 ^ 53"] by (simp add: roundEven_def)
    then show ?thesis unfolding k53 by simp
  qed
qed

text \<open>
  A product with an integer \<open>n\<close> that stays a factor \<open>1 - 2^-53\<close> below \<open>n\<close> rounds to
  a double below \<open>n\<close>.
\<close>

lemma fl_below_int:
  assumes "0 \<le> x" "x \<le> of_int n * (1 - 1 / 2 ^ 53)" "1 \<le> n" "n \<le> 2 ^ 53"
  shows "fl x < of_int n"
proof (rule ccontr)
  assume "\<not> fl x < of_int n"
  then have ge: "of_int n \<le> fl x" by simp
  let ?n = "real_of_int n"
  have n: "0 < ?n" using assms(3) by simp
  have xn: "x < ?n"
  proof -
    have "?n * (1 - 1 / 2 ^ 53) < ?n * 1" using n by (intro mult_strict_left_mono) simp_all
    with assms(2) show ?thesis by simp
  qed
  have gap: "?n / 2 ^ 53 \<le> ?n - x" using assms(2) by (simp add: algebra_simps)
  have x0: "x \<noteq> 0" using ge n by auto
  then have xp: "0 < x" using assms(1) by simp
  let ?e = "\<lfloor>log 2 ?n\<rfloor>"
  have lo: "2 powi ?e \<le> ?n" using floor_log2_bounds(1)[OF n] .
  have e0: "0 \<le> ?e"
  proof -
    have "0 \<le> log 2 ?n" using assms(3) by simp
    then show ?thesis by simp
  qed
  have err: "fl x - x \<le> 2 powi (binade x - 53)" using fl_error[OF x0] by linarith
  show False
  proof (cases "x < 2 powi ?e")
    case True
    have "\<lfloor>log 2 x\<rfloor> < ?e"
    proof (rule ccontr)
      assume "\<not> \<lfloor>log 2 x\<rfloor> < ?e"
      then have "?e \<le> \<lfloor>log 2 x\<rfloor>" by simp
      then have "(2::real) powi ?e \<le> 2 powi \<lfloor>log 2 x\<rfloor>"
        by (intro power_int_increasing) simp_all
      with floor_log2_bounds(1)[OF xp] True show False by linarith
    qed
    then have b: "binade x + 1 \<le> ?e" using e0 binade_pos[OF xp] by linarith
    have "fl x \<le> 2 powi (binade x + 1)" by (rule fl_le_top[OF xp])
    also have "\<dots> \<le> 2 powi ?e" using b by (intro power_int_increasing) simp_all
    finally have "fl x \<le> 2 powi ?e" .
    with ge lo have eq: "?n = 2 powi ?e" by linarith
    have "(2::real) powi (binade x - 53) \<le> 2 powi (?e - 54)"
      using b by (intro power_int_increasing) simp_all
    also have "\<dots> = ?n / 2 ^ 54"
    proof -
      have e: "?e - 54 = ?e + (- 54)" by simp
      have "(2::real) powi (?e - 54) = 2 powi ?e * 2 powi (- 54)"
        by (subst e, subst power_int_add) simp_all
      then show ?thesis unfolding eq[symmetric] by (simp add: power_int_minus_divide)
    qed
    finally have "fl x - x \<le> ?n / 2 ^ 54" using err by linarith
    moreover have "?n / 2 ^ 54 < ?n / 2 ^ 53" using n by (simp add: field_simps)
    ultimately show False using gap ge by linarith
  next
    case False
    then have xl: "2 powi ?e \<le> x" by simp
    have xu: "x < 2 powi (?e + 1)" using xn floor_log2_bounds(2)[OF n] by linarith
    have "\<lfloor>log 2 x\<rfloor> = ?e" by (rule floor_log2_eq[OF xl xu])
    then have b: "binade x = ?e" using e0 binade_pos[OF xp] by linarith
    have p: "(2::real) powi (?e - 53) = 2 powi ?e / 2 ^ 53"
    proof -
      have e: "?e - 53 = ?e + (- 53)" by simp
      have "(2::real) powi (?e - 53) = 2 powi ?e * 2 powi (- 53)"
        by (subst e, subst power_int_add) simp_all
      then show ?thesis by (simp add: power_int_minus_divide)
    qed
    have "?n - x \<le> fl x - x" using ge by simp
    also have "\<dots> \<le> 2 powi ?e / 2 ^ 53" using err unfolding b p .
    finally have "?n / 2 ^ 53 \<le> 2 powi ?e / 2 ^ 53" using gap by linarith
    then have "?n \<le> 2 powi ?e" by (simp add: divide_le_cancel)
    with xl xn show False by linarith
  qed
qed

text \<open>The largest double below 1 is \<open>1 - 2^-53\<close>.\<close>

lemma double_below_one:
  assumes "fl u = u" "0 \<le> u" "u < 1"
  shows "u \<le> 1 - 1 / 2 ^ 53"
proof (cases "u = 0")
  case True
  then show ?thesis by simp
next
  case False
  then have up: "0 < u" using assms(2) by simp
  have l: "\<lfloor>log 2 u\<rfloor> \<le> - 1"
  proof -
    have "log 2 u < 0" using up assms(3) by simp
    then show ?thesis by (simp add: floor_le_iff)
  qed
  then have b: "binade u \<le> - 1" using binade_pos[OF up] by linarith
  show ?thesis
  proof (cases "binade u = - 1")
    case True
    define m where "m = roundEven (u / 2 powi (- 53))"
    have "fl u = of_int m * 2 powi (- 53)"
      using False True by (simp add: fl_def Let_def m_def)
    then have m: "u = of_int m / 2 ^ 53"
      using assms(1) powi_neg_nat[of 53] by simp
    from assms(3) have "real_of_int m < 2 ^ 53" unfolding m by (simp add: divide_less_eq)
    then have "m < 2 ^ 53" by simp
    then have "m \<le> 2 ^ 53 - 1" by simp
    then have "real_of_int m \<le> real_of_int (2 ^ 53 - 1)" by (simp only: of_int_le_iff)
    then have "real_of_int m \<le> 2 ^ 53 - 1" by simp
    then have "real_of_int m / 2 ^ 53 \<le> (2 ^ 53 - 1) / 2 ^ 53" by (intro divide_right_mono) simp_all
    also have "((2::real) ^ 53 - 1) / 2 ^ 53 = 1 - 1 / 2 ^ 53" by (simp add: diff_divide_distrib)
    finally show ?thesis unfolding m .
  next
    case F: False
    with b have "binade u + 1 \<le> - 1" by simp
    then have "(2::real) powi (binade u + 1) \<le> 2 powi (- 1)"
      by (intro power_int_increasing) simp_all
    with binade_upper[of u] up have "u < 1 / 2" by (simp add: power_int_minus_divide)
    then show ?thesis by simp
  qed
qed

lemma floor_fl_bounds:
  assumes "0 \<le> x" "x < 2 ^ 53"
  shows "\<lfloor>x\<rfloor> \<le> \<lfloor>fl x\<rfloor>" "\<lfloor>fl x\<rfloor> \<le> \<lfloor>x\<rfloor> + 1"
proof -
  have f0: "0 \<le> \<lfloor>x\<rfloor>" using assms(1) by simp
  have "\<lfloor>x\<rfloor> < 2 ^ 53" using assms(2) by (simp add: floor_less_iff)
  then have f1: "\<lfloor>x\<rfloor> + 1 \<le> 2 ^ 53" by simp
  have "fl (of_int \<lfloor>x\<rfloor>) \<le> fl x" by (rule fl_mono) (use f0 in simp_all)
  then have "of_int \<lfloor>x\<rfloor> \<le> fl x" using fl_int[of "\<lfloor>x\<rfloor>"] f0 f1 by simp
  then show "\<lfloor>x\<rfloor> \<le> \<lfloor>fl x\<rfloor>" by (simp add: le_floor_iff)
  have "fl x \<le> fl (of_int (\<lfloor>x\<rfloor> + 1))" by (rule fl_mono) (use assms(1) in linarith)+
  then have "fl x \<le> of_int (\<lfloor>x\<rfloor> + 1)" using fl_int[of "\<lfloor>x\<rfloor> + 1"] f0 f1 by simp
  then show "\<lfloor>fl x\<rfloor> \<le> \<lfloor>x\<rfloor> + 1" by (metis floor_mono floor_of_int)
qed

lemma fl_numeral [simp]: "numeral n \<le> (2::int) ^ 53 \<Longrightarrow> fl (numeral n) = numeral n"
  using fl_int[of "numeral n"] by simp

lemma fl_1 [simp]: "fl 1 = 1"
  using fl_int[of 1] by simp

lemma fl_half: "fl (1 / 2) = 1 / 2"
  using fl_eval[of "- 1" "1 / 2"] by (simp add: roundEven_def)

lemma fl_top: "fl (1 - 1 / 2 ^ 53) = 1 - 1 / 2 ^ 53"
  using fl_eval[of "- 1" "1 - 1 / 2 ^ 53"] by (simp add: roundEven_def)

lemma fl_7_10: "fl (7 / 10) = 3152519739159347 / 4503599627370496"
  using fl_eval[of "- 1" "7 / 10"] by (simp add: roundEven_def)

lemma fl_13_10: "fl (13 / 10) = 5854679515581645 / 4503599627370496"
  using fl_eval[of 0 "13 / 10"] by (simp add: roundEven_def)

lemma fl_lo_jitter: "fl (3152519739159347 / 4503599627370496) = 3152519739159347 / 4503599627370496"
  using fl_eval[of "- 1" "3152519739159347 / 4503599627370496"] by (simp add: roundEven_def)

lemma fl_hi_jitter: "fl (5854679515581645 / 4503599627370496) = 5854679515581645 / 4503599627370496"
  using fl_eval[of 0 "5854679515581645 / 4503599627370496"] by (simp add: roundEven_def)

lemma fl_span_jitter:
  "fl (5854679515581645 / 4503599627370496 - 3152519739159347 / 4503599627370496)
     = 5854679515581645 / 4503599627370496 - 3152519739159347 / 4503599627370496"
  using fl_eval[of "- 1" "5854679515581645 / 4503599627370496 - 3152519739159347 / 4503599627370496"]
  by (simp add: roundEven_def)

text \<open>Ties: the midpoint below 8 rounds up to 8, and the midpoint below 4 up to 4.\<close>

lemma fl_top_4: "fl ((1 - 1 / 2 ^ 53) * 4) = 4 - 1 / 2 ^ 51"
  using fl_eval[of 1 "(1 - 1 / 2 ^ 53) * 4"] by (simp add: roundEven_def)

lemma fl_tie_8: "fl (4 - 1 / 2 ^ 51 + 4) = 8"
  using fl_eval[of 2 "4 - 1 / 2 ^ 51 + 4"] by (simp add: roundEven_def)

lemma fl_pred_4: "fl (4 - 1 / 2 ^ 50) = 4 - 1 / 2 ^ 50"
  using fl_eval[of 1 "4 - 1 / 2 ^ 50"] by (simp add: roundEven_def)

lemma fl_pred_8: "fl (8 - 1 / 2 ^ 50) = 8 - 1 / 2 ^ 50"
  using fl_eval[of 2 "8 - 1 / 2 ^ 50"] by (simp add: roundEven_def)

lemma fl_draw_idx: "fl (2001599834386887 / 4503599627370496) = 2001599834386887 / 4503599627370496"
  using fl_eval[of "- 2" "2001599834386887 / 4503599627370496"] by (simp add: roundEven_def)

lemma fl_tie_idx: "fl (2001599834386887 / 4503599627370496 * 9) = 4"
  using fl_eval[of 1 "2001599834386887 / 4503599627370496 * 9"] by (simp add: roundEven_def)

text \<open>The doubles of \<open>[1/2, 1)\<close> are the multiples of \<open>2^-53\<close>.\<close>

lemma double_grid:
  assumes "fl u = u" "1 / 2 \<le> u" "u < 1"
  shows "\<exists>m::int. u = of_int m / 2 ^ 53"
proof -
  have "fl u = of_int (roundEven (u / 2 powi (- 1 - 52))) * 2 powi (- 1 - 52)"
    by (rule fl_eval) (use assms in \<open>simp_all add: power_int_minus_divide\<close>)
  then have "u = of_int (roundEven (u / 2 powi (- 53))) / 2 ^ 53"
    using assms(1) powi_neg_nat[of 53] by simp
  then show ?thesis by blast
qed

lemma double_below_pred:
  assumes "fl u = u" "0 \<le> u" "u < 1 - 1 / 2 ^ 53"
  shows "u \<le> 1 - 1 / 2 ^ 52"
proof (cases "u < 1 / 2")
  case True
  then show ?thesis by simp
next
  case False
  then obtain m :: int where m: "u = of_int m / 2 ^ 53"
    using double_grid[of u] assms by auto
  have "real_of_int m / 2 ^ 53 < (2 ^ 53 - 1) / 2 ^ 53"
    using assms(3) unfolding m by (simp add: diff_divide_distrib)
  then have "real_of_int m < 2 ^ 53 - 1" by (simp add: divide_less_cancel)
  then have "real_of_int m < real_of_int (2 ^ 53 - 1)" by simp
  then have "m < 2 ^ 53 - 1" by (simp only: of_int_less_iff)
  then have "m \<le> 2 ^ 53 - 2" by simp
  then have "real_of_int m \<le> real_of_int (2 ^ 53 - 2)" by (simp only: of_int_le_iff)
  then have "real_of_int m \<le> 2 ^ 53 - 2" by simp
  then have "real_of_int m / 2 ^ 53 \<le> (2 ^ 53 - 2) / 2 ^ 53" by (intro divide_right_mono) simp_all
  also have "((2::real) ^ 53 - 2) / 2 ^ 53 = 1 - 1 / 2 ^ 52" by (simp add: diff_divide_distrib)
  finally show ?thesis unfolding m .
qed

text \<open>
  \<open>Math.random() * (hi - lo) + lo\<close> with its three roundings stays in \<open>[lo, hi]\<close> when
  the bounds and their difference are doubles.
\<close>

lemma scaled_draw_bounds:
  assumes "0 \<le> u" "u \<le> 1" "0 \<le> lo" "lo \<le> hi" "fl lo = lo" "fl hi = hi"
    "fl (hi - lo) = hi - lo"
  shows "lo \<le> fl (fl (u * fl (hi - lo)) + lo)" "fl (fl (u * fl (hi - lo)) + lo) \<le> hi"
proof -
  let ?d = "hi - lo"
  let ?t = "fl (u * ?d)"
  have d: "0 \<le> ?d" using assms(4) by simp
  have ud: "0 \<le> u * ?d" "u * ?d \<le> ?d" using assms(1,2) d by (simp_all add: mult_left_le_one_le)
  have t0: "0 \<le> ?t" using ud(1) by (rule fl_nonneg)
  have "?t \<le> fl ?d" using ud by (rule fl_mono)
  then have t1: "?t \<le> ?d" unfolding assms(7) .
  have "fl lo \<le> fl (?t + lo)" by (rule fl_mono) (use assms(3) t0 in simp_all)
  then show "lo \<le> fl (fl (u * fl ?d) + lo)" unfolding assms(5) assms(7) .
  have "fl (?t + lo) \<le> fl hi" by (rule fl_mono) (use assms(3) t0 t1 in simp_all)
  then show "fl (fl (u * fl ?d) + lo) \<le> hi" unfolding assms(6) assms(7) .
qed

section \<open>Random draws and the loops of the shape factory\<close>

declare starLoop.simps [simp del] irregularLoop.simps [simp del] lineLoop.simps [simp del]
  spawnLoop.simps [simp del]

lemma rdrop_rdrop: "rdrop a (rdrop b r) = rdrop (a + b) r"
  by (simp add: rdrop_def fun_eq_iff add.assoc)

lemma rdrop_0: "rdrop 0 r = r"
  by (simp add: rdrop_def)

lemma rdrop_apply: "rdrop k r i = r (i + k)"
  by (simp add: rdrop_def)

lemma unitDraws_rdrop: "unitDraws r \<Longrightarrow> unitDraws (rdrop k r)"
  by (simp add: unitDraws_def rdrop_def)

lemma unitDraws_nth: "unitDraws r \<Longrightarrow> 0 \<le> r i \<and> r i < 1 \<and> r i \<le> 1"
  by (simp add: unitDraws_def less_imp_le)

lemma unitDraws_top: "unitDraws r \<Longrightarrow> 0 \<le> r i \<and> r i \<le> 1 - 1 / 2 ^ 53"
  using double_below_one[of "r i"] by (simp add: unitDraws_def)

lemma randomInRange_eq:
  "randomInRange lo hi r = (fl (fl (r 0 * fl (hi - lo)) + lo), rdrop 1 r)"
  by (simp add: randomInRange_def Math_random_def)

lemma getRandomColor_eq:
  "getRandomColor r = (jsIndex COLORS \<lfloor>fl (r 0 * real (length COLORS))\<rfloor>, rdrop 1 r)"
  by (simp add: getRandomColor_def Math_random_def)

lemma starLoop_step:
  "i < points * 2 \<Longrightarrow>
   starLoop i points outerRadius innerRadius angleStep vs =
     starLoop (Suc i) points outerRadius innerRadius angleStep
       (vs @ [starVertex outerRadius innerRadius angleStep i])"
  by (subst starLoop.simps) (simp add: Let_def starVertex_def even_iff_mod_2_eq_zero)

lemma starLoop_stop:
  "\<not> i < points * 2 \<Longrightarrow> starLoop i points outerRadius innerRadius angleStep vs = vs"
  by (subst starLoop.simps) simp

lemma starLoop_eq:
  "i \<le> points * 2 \<Longrightarrow>
   starLoop i points outerRadius innerRadius angleStep vs =
     vs @ map (starVertex outerRadius innerRadius angleStep) [i..<points * 2]"
proof (induction "points * 2 - i" arbitrary: i vs)
  case 0
  then show ?case by (simp add: starLoop_stop)
next
  case (Suc d)
  then have lt: "i < points * 2" by simp
  have "d = points * 2 - Suc i" using Suc.hyps(2) by simp
  then show ?case
    using Suc.hyps(1)[of "Suc i"] lt by (simp add: starLoop_step upt_conv_Cons)
qed

lemma irregularLoop_step:
  "int i < n \<Longrightarrow>
   irregularLoop i n baseRadius angleStep r vs =
     irregularLoop (Suc i) n baseRadius angleStep (rdrop 1 r)
       (vs @ [jitterVertex baseRadius angleStep i (r 0)])"
  by (subst irregularLoop.simps) (simp add: Let_def randomInRange_eq jitterVertex_def jitter_def)

lemma irregularLoop_stop:
  "\<not> int i < n \<Longrightarrow> irregularLoop i n baseRadius angleStep r vs = (vs, r)"
  by (subst irregularLoop.simps) simp

lemma irregularLoop_eq:
  "irregularLoop i n baseRadius angleStep r vs =
     (vs @ map (\<lambda>k. jitterVertex baseRadius angleStep k (r (k - i))) [i..<nat n],
      rdrop (nat n - i) r)"
proof (induction "nat n - i" arbitrary: i r vs)
  case 0
  then have "\<not> int i < n" by linarith
  with 0 show ?case by (simp add: irregularLoop_stop rdrop_0)
next
  case (Suc d)
  then have lt: "int i < n" by linarith
  have d: "d = nat n - Suc i" using Suc.hyps(2) by simp
  have m: "map (\<lambda>k. jitterVertex baseRadius angleStep k (rdrop (Suc 0) r (k - Suc i))) [Suc i..<nat n]
         = map (\<lambda>k. jitterVertex baseRadius angleStep k (r (k - i))) [Suc i..<nat n]"
    by (rule map_cong) (auto simp: rdrop_def Suc_diff_Suc)
  have up: "[i..<nat n] = i # [Suc i..<nat n]" using lt by (simp add: upt_conv_Cons)
  have dd: "Suc (nat n - Suc i) = nat n - i" using lt by linarith
  show ?case
    using Suc.hyps(1)[OF d, of "rdrop 1 r"] 
    by (simp add: irregularLoop_step[OF lt] m up rdrop_rdrop dd)
qed

section \<open>Shape factory: the vertices of a star\<close>

lemma createStar_geometry:
  "geometry (fst (createStar points lib r x y)) =
     GFromVertices [map (starVertex (fl (fl (r 0 * 20) + 30)) (fl (fl (r 0 * 20) + 30) * (4 / 10))
                      ((pi * 2) / real (points * 2))) [0..<points * 2]]"
  by (simp add: createStar_def randomInRange_eq getRandomColor_eq Let_def starLoop_eq
      Bodies_create_def)

text \<open>
  C8: \<open>createStar(x, y, points)\<close> hands \<open>2 * points\<close> vertices to
  \<open>Bodies.fromVertices\<close>. Vertex \<open>i\<close> lies at the angle \<open>i * (2 * pi / (2 * points)) - pi / 2\<close>,
  so the first one is at the top, at the outer radius when \<open>i\<close> is even and at the inner
  radius, 0.4 times the outer one, when \<open>i\<close> is odd. The outer radius is the result of
  \<open>randomInRange(30, 50)\<close>.
\<close>

theorem createStar_vertices:
  "\<exists>vs. geometry (fst (createStar points lib r x y)) = GFromVertices [vs]
     \<and> length vs = 2 * points
     \<and> (\<forall>i < 2 * points.
          vs ! i =
            \<lparr>vx = cos (real i * (2 * pi / real (2 * points)) - pi / 2)
                   * (if even i then fl (fl (r 0 * 20) + 30)
                      else fl (fl (r 0 * 20) + 30) * (4 / 10)),
             vy = sin (real i * (2 * pi / real (2 * points)) - pi / 2)
                   * (if even i then fl (fl (r 0 * 20) + 30)
                      else fl (fl (r 0 * 20) + 30) * (4 / 10))\<rparr>)
     \<and> (0 < points \<longrightarrow> vs ! 0 = \<lparr>vx = 0, vy = - fl (fl (r 0 * 20) + 30)\<rparr>)"
proof -
  let ?vs = "map (starVertex (fl (fl (r 0 * 20) + 30)) (fl (fl (r 0 * 20) + 30) * (4 / 10))
                      ((pi * 2) / real (points * 2))) [0..<points * 2]"
  have g: "geometry (fst (createStar points lib r x y)) = GFromVertices [?vs]"
    by (rule createStar_geometry)
  have l: "length ?vs = 2 * points" by simp
  have n: "\<forall>i < 2 * points. ?vs ! i =
            \<lparr>vx = cos (real i * (2 * pi / real (2 * points)) - pi / 2)
                   * (if even i then fl (fl (r 0 * 20) + 30)
                      else fl (fl (r 0 * 20) + 30) * (4 / 10)),
             vy = sin (real i * (2 * pi / real (2 * points)) - pi / 2)
                   * (if even i then fl (fl (r 0 * 20) + 30)
                      else fl (fl (r 0 * 20) + 30) * (4 / 10))\<rparr>"
    by (simp add: starVertex_def mult.commute)
  have z: "0 < points \<longrightarrow> ?vs ! 0 = \<lparr>vx = 0, vy = - fl (fl (r 0 * 20) + 30)\<rparr>"
    by (simp add: starVertex_def)
  from g l n z show ?thesis by blast
qed

text \<open>A five-pointed star whose radius draw is 1/2: ten vertices, outer radius 40, inner 16.\<close>

theorem createStar_vertices_witness:
  "\<exists>vs. geometry (fst (createStar 5 (\<lambda>g p a. []) (\<lambda>i. 1 / 2) 0 0)) = GFromVertices [vs]
     \<and> length vs = 10
     \<and> vs ! 0 = \<lparr>vx = 0, vy = - 40\<rparr>
     \<and> vs ! 5 = \<lparr>vx = 0, vy = 16\<rparr>"
proof -
  obtain vs where g: "geometry (fst (createStar 5 (\<lambda>g p a. []) (\<lambda>i. 1 / 2) 0 0)) = GFromVertices [vs]"
    and l: "length vs = 2 * 5"
    and n: "\<forall>i < 2 * 5.
          vs ! i =
            \<lparr>vx = cos (real i * (2 * pi / real (2 * 5)) - pi / 2)
                   * (if even i then fl (fl ((\<lambda>i. 1 / 2) 0 * 20) + 30)
                      else fl (fl ((\<lambda>i. 1 / 2) 0 * 20) + 30) * (4 / 10)),
             vy = sin (real i * (2 * pi / real (2 * 5)) - pi / 2)
                   * (if even i then fl (fl ((\<lambda>i. 1 / 2) 0 * 20) + 30)
                      else fl (fl ((\<lambda>i. 1 / 2) 0 * 20) + 30) * (4 / 10))\<rparr>"
    using createStar_vertices[of 5 "\<lambda>g p a. []" "\<lambda>i. 1 / 2" 0 0] by blast
  have "vs ! 0 = \<lparr>vx = 0, vy = - 40\<rparr>" using n by simp
  moreover have "vs ! 5 = \<lparr>vx = 0, vy = 16\<rparr>" using n by simp
  ultimately show ?thesis using g l by simp
qed

section \<open>Shape factory: sizes and their ranges\<close>

lemma createCircle_eq:
  "createCircle lib r x y =
     (Bodies_create lib (GCircle (fl (fl (r 0 * 30) + 20))) x y
        (shapeOptions None (jsIndex COLORS \<lfloor>fl (r 1 * real (length COLORS))\<rfloor>)), rdrop 2 r)"
  by (simp add: createCircle_def randomInRange_eq getRandomColor_eq rdrop_rdrop rdrop_apply
      numeral_2_eq_2)

lemma createIrregularPolygon_eq:
  "createIrregularPolygon lib r x y =
     (Bodies_create lib
        (GFromVertices
          [map (\<lambda>k. jitterVertex (fl (fl (r 1 * 20) + 25))
                      ((pi * 2) / real_of_int \<lfloor>fl (fl (r 0 * 4) + 4)\<rfloor>) k (r (k + 2)))
             [0..<nat \<lfloor>fl (fl (r 0 * 4) + 4)\<rfloor>]]) x y
        (shapeOptions None
           (jsIndex COLORS
              \<lfloor>fl (r (nat \<lfloor>fl (fl (r 0 * 4) + 4)\<rfloor> + 2) * real (length COLORS))\<rfloor>)),
      rdrop (nat \<lfloor>fl (fl (r 0 * 4) + 4)\<rfloor> + 3) r)"
  by (simp add: createIrregularPolygon_def randomInRange_eq getRandomColor_eq rdrop_rdrop
      rdrop_apply irregularLoop_eq Let_def add.commute numeral_3_eq_3)

text \<open>
  \<open>Math.floor(randomInRange(4, 8))\<close> lies between 4 and 8, and it is 8 for one draw
  only, the largest double below 1: there \<open>u * 4 + 4\<close> is halfway between 8 and the
  double below 8, and the tie goes to 8.
\<close>

lemma vertexCount_bounds:
  assumes "0 \<le> u" "u < 1" "fl u = u"
  shows "4 \<le> \<lfloor>fl (fl (u * 4) + 4)\<rfloor>" "\<lfloor>fl (fl (u * 4) + 4)\<rfloor> \<le> 8"
    "(\<lfloor>fl (fl (u * 4) + 4)\<rfloor> = 8) = (u = 1 - 1 / 2 ^ 53)"
proof -
  let ?c = "fl (fl (u * 4) + 4)"
  have b: "4 \<le> ?c" "?c \<le> 8"
    using scaled_draw_bounds[of u 4 8] assms(1,2) by simp_all
  show "4 \<le> \<lfloor>?c\<rfloor>" using b(1) by (simp add: le_floor_iff)
  show "\<lfloor>?c\<rfloor> \<le> 8" using b(2) by (simp add: floor_le_iff)
  show "(\<lfloor>?c\<rfloor> = 8) = (u = 1 - 1 / 2 ^ 53)"
  proof
    assume c8: "\<lfloor>?c\<rfloor> = 8"
    show "u = 1 - 1 / 2 ^ 53"
    proof (rule ccontr)
      assume ne: "u \<noteq> 1 - 1 / 2 ^ 53"
      have "u \<le> 1 - 1 / 2 ^ 53" using double_below_one[OF assms(3,1,2)] .
      with ne have "u < 1 - 1 / 2 ^ 53" by simp
      then have "u \<le> 1 - 1 / 2 ^ 52" using double_below_pred[OF assms(3,1)] by simp
      then have u4: "u * 4 \<le> 4 - 1 / 2 ^ 50" by simp
      have "fl (u * 4) \<le> fl (4 - 1 / 2 ^ 50)" by (rule fl_mono) (use assms(1) u4 in simp_all)
      then have t: "fl (u * 4) \<le> 4 - 1 / 2 ^ 50" unfolding fl_pred_4 .
      have t0: "0 \<le> fl (u * 4)" by (rule fl_nonneg) (use assms(1) in simp)
      have "?c \<le> fl (8 - 1 / 2 ^ 50)" by (rule fl_mono) (use t t0 in simp_all)
      then have "?c \<le> 8 - 1 / 2 ^ 50" unfolding fl_pred_8 .
      then have "?c < 8" by simp
      then have "\<lfloor>?c\<rfloor> < 8" by (simp add: floor_less_iff)
      with c8 show False by simp
    qed
  next
    assume u: "u = 1 - 1 / 2 ^ 53"
    have "fl (fl ((1 - 1 / 2 ^ 53) * 4) + 4) = 8" unfolding fl_top_4 fl_tie_8 ..
    then show "\<lfloor>?c\<rfloor> = 8" unfolding u by simp
  qed
qed

text \<open>
  The jitter factor stays between the doubles that \<open>0.7\<close> and \<open>1.3\<close> denote.
\<close>

lemma jitter_bounds:
  assumes "0 \<le> u" "u < 1"
  shows "fl (7 / 10) \<le> jitter u" "jitter u \<le> fl (13 / 10)"
proof -
  have a: "fl (fl (7 / 10)) = fl (7 / 10)" unfolding fl_7_10 by (rule fl_lo_jitter)
  have b: "fl (fl (13 / 10)) = fl (13 / 10)" unfolding fl_13_10 by (rule fl_hi_jitter)
  have c: "fl (fl (13 / 10) - fl (7 / 10)) = fl (13 / 10) - fl (7 / 10)"
    unfolding fl_7_10 fl_13_10 by (rule fl_span_jitter)
  have p: "0 \<le> fl (7 / 10)" "fl (7 / 10) \<le> fl (13 / 10)"
    unfolding fl_7_10 fl_13_10 by simp_all
  have u1: "u \<le> 1" using assms(2) by simp
  show "fl (7 / 10) \<le> jitter u" unfolding jitter_def
    by (rule scaled_draw_bounds(1)[OF assms(1) u1 p a b c])
  show "jitter u \<le> fl (13 / 10)" unfolding jitter_def
    by (rule scaled_draw_bounds(2)[OF assms(1) u1 p a b c])
qed

lemma jitter_half: "jitter (1 / 2) = 1"
proof -
  have h: "fl (1 / 2 * (5854679515581645 / 4503599627370496 - 3152519739159347 / 4503599627370496))
      = 1351079888211149 / 4503599627370496"
    using fl_eval[of "- 2" "1 / 2 * (5854679515581645 / 4503599627370496 - 3152519739159347 / 4503599627370496)"]
    by (simp add: roundEven_def)
  have s: "fl (1351079888211149 / 4503599627370496 + 3152519739159347 / 4503599627370496) = 1"
    by simp
  show ?thesis unfolding jitter_def fl_7_10 fl_13_10 fl_span_jitter h s ..
qed

text \<open>
  C9, as the code has it: whatever doubles in \<open>[0, 1)\<close> the random draws are, a circle
  made by \<open>createCircle\<close> has a radius in \<open>[20, 50]\<close>, and an irregular polygon made by
  \<open>createIrregularPolygon\<close> has 4 to 8 vertices, 8 exactly when the first draw is the
  largest double below 1. Its base radius lies in \<open>[25, 45]\<close>, and vertex \<open>i\<close> is at the
  base radius times a factor that comes from a draw of its own and lies between the
  doubles that \<open>0.7\<close> and \<open>1.3\<close> denote.
\<close>

theorem factory_sizes_within_bounds:
  assumes "unitDraws r"
  shows "(\<exists>radius. geometry (fst (createCircle lib r x y)) = GCircle radius
            \<and> circleRadius (fst (createCircle lib r x y)) = radius
            \<and> radius = fl (fl (r 0 * 30) + 20) \<and> 20 \<le> radius \<and> radius \<le> 50)
       \<and> (\<exists>vs n baseRadius.
            geometry (fst (createIrregularPolygon lib r x y)) = GFromVertices [vs]
            \<and> int n = \<lfloor>fl (fl (r 0 * 4) + 4)\<rfloor> \<and> 4 \<le> n \<and> n \<le> 8
            \<and> (n = 8) = (r 0 = 1 - 1 / 2 ^ 53)
            \<and> length vs = n
            \<and> baseRadius = fl (fl (r 1 * 20) + 25) \<and> 25 \<le> baseRadius \<and> baseRadius \<le> 45
            \<and> (\<forall>i < n. \<exists>j.
                   j = fl (fl (r (i + 2) * fl (fl (13 / 10) - fl (7 / 10))) + fl (7 / 10))
                   \<and> fl (7 / 10) \<le> j \<and> j \<le> fl (13 / 10)
                   \<and> vs ! i = \<lparr>vx = cos (real i * (2 * pi / real n)) * (baseRadius * j),
                               vy = sin (real i * (2 * pi / real n)) * (baseRadius * j)\<rparr>))"
proof -
  have u0: "0 \<le> r 0" "r 0 < 1" "fl (r 0) = r 0" using assms by (simp_all add: unitDraws_def)
  have u1: "0 \<le> r 1" "r 1 \<le> 1" using unitDraws_nth[OF assms, of 1] by simp_all
  have c: "20 \<le> fl (fl (r 0 * 30) + 20)" "fl (fl (r 0 * 30) + 20) \<le> 50"
    using scaled_draw_bounds[of "r 0" 20 50] u0 by simp_all
  have circ: "\<exists>radius. geometry (fst (createCircle lib r x y)) = GCircle radius
            \<and> circleRadius (fst (createCircle lib r x y)) = radius
            \<and> radius = fl (fl (r 0 * 30) + 20) \<and> 20 \<le> radius \<and> radius \<le> 50"
    using c by (simp add: createCircle_eq Bodies_create_def)
  let ?c = "\<lfloor>fl (fl (r 0 * 4) + 4)\<rfloor>"
  let ?n = "nat ?c"
  let ?b = "fl (fl (r 1 * 20) + 25)"
  let ?vs = "map (\<lambda>k. jitterVertex ?b ((pi * 2) / real_of_int ?c) k (r (k + 2))) [0..<?n]"
  note vb = vertexCount_bounds[OF u0]
  have cn: "int ?n = ?c" using vb(1) by simp
  have nb: "4 \<le> ?n" "?n \<le> 8" using vb(1,2) by linarith+
  have n8: "(?n = 8) = (r 0 = 1 - 1 / 2 ^ 53)" using vb(3) cn by linarith
  have rn: "real_of_int ?c = real ?n" using vb(1) by simp
  have bb: "25 \<le> ?b" "?b \<le> 45"
    using scaled_draw_bounds[of "r 1" 25 45] u1 by simp_all
  have g: "geometry (fst (createIrregularPolygon lib r x y)) = GFromVertices [?vs]"
    by (simp add: createIrregularPolygon_eq Bodies_create_def)
  have l: "length ?vs = ?n" by simp
  have v: "\<forall>i < ?n. \<exists>j.
                   j = fl (fl (r (i + 2) * fl (fl (13 / 10) - fl (7 / 10))) + fl (7 / 10))
                   \<and> fl (7 / 10) \<le> j \<and> j \<le> fl (13 / 10)
                   \<and> ?vs ! i = \<lparr>vx = cos (real i * (2 * pi / real ?n)) * (?b * j),
                               vy = sin (real i * (2 * pi / real ?n)) * (?b * j)\<rparr>"
  proof (intro allI impI)
    fix i assume i: "i < ?n"
    have d: "0 \<le> r (i + 2)" "r (i + 2) < 1" using unitDraws_nth[OF assms, of "i + 2"] by simp_all
    have e: "?vs ! i = \<lparr>vx = cos (real i * (2 * pi / real ?n)) * (?b * jitter (r (i + 2))),
                     vy = sin (real i * (2 * pi / real ?n)) * (?b * jitter (r (i + 2)))\<rparr>"
      using i by (simp add: jitterVertex_def rn mult.commute)
    have j: "jitter (r (i + 2))
        = fl (fl (r (i + 2) * fl (fl (13 / 10) - fl (7 / 10))) + fl (7 / 10))"
      by (simp only: jitter_def)
    from e jitter_bounds[OF d]
    show "\<exists>j. j = fl (fl (r (i + 2) * fl (fl (13 / 10) - fl (7 / 10))) + fl (7 / 10))
                   \<and> fl (7 / 10) \<le> j \<and> j \<le> fl (13 / 10)
                   \<and> ?vs ! i = \<lparr>vx = cos (real i * (2 * pi / real ?n)) * (?b * j),
                               vy = sin (real i * (2 * pi / real ?n)) * (?b * j)\<rparr>"
      unfolding j by blast
  qed
  have irr: "\<exists>vs n baseRadius.
            geometry (fst (createIrregularPolygon lib r x y)) = GFromVertices [vs]
            \<and> int n = \<lfloor>fl (fl (r 0 * 4) + 4)\<rfloor> \<and> 4 \<le> n \<and> n \<le> 8
            \<and> (n = 8) = (r 0 = 1 - 1 / 2 ^ 53)
            \<and> length vs = n
            \<and> baseRadius = fl (fl (r 1 * 20) + 25) \<and> 25 \<le> baseRadius \<and> baseRadius \<le> 45
            \<and> (\<forall>i < n. \<exists>j.
                   j = fl (fl (r (i + 2) * fl (fl (13 / 10) - fl (7 / 10))) + fl (7 / 10))
                   \<and> fl (7 / 10) \<le> j \<and> j \<le> fl (13 / 10)
                   \<and> vs ! i = \<lparr>vx = cos (real i * (2 * pi / real n)) * (baseRadius * j),
                               vy = sin (real i * (2 * pi / real n)) * (baseRadius * j)\<rparr>)"
    using g cn nb n8 l bb v by blast
  from circ irr show ?thesis by blast
qed

text \<open>Every draw 1/2: a circle of radius 35 and a hexagon whose first vertex is at radius 35.\<close>

theorem factory_sizes_within_bounds_witness:
  "unitDraws (\<lambda>i. 1 / 2)
   \<and> geometry (fst (createCircle (\<lambda>g p a. []) (\<lambda>i. 1 / 2) 0 0)) = GCircle 35
   \<and> (\<exists>vs. geometry (fst (createIrregularPolygon (\<lambda>g p a. []) (\<lambda>i. 1 / 2) 0 0))
              = GFromVertices [vs]
         \<and> length vs = 6 \<and> vs ! 0 = \<lparr>vx = 35, vy = 0\<rparr>)"
proof -
  have u: "unitDraws (\<lambda>i. 1 / 2)" by (simp add: unitDraws_def fl_half)
  have f: "\<lfloor>fl (fl ((1 / 2 :: real) * 4) + 4)\<rfloor> = 6" by simp
  have j: "fl (fl (1 / 2 * fl (fl (13 / 10) - fl (7 / 10))) + fl (7 / 10)) = 1"
    using jitter_half by (simp only: jitter_def)
  from factory_sizes_within_bounds[OF u, of "\<lambda>g p a. []" 0 0]
  obtain radius vs n where c: "geometry (fst (createCircle (\<lambda>g p a. []) (\<lambda>i. 1 / 2) 0 0)) = GCircle radius"
      "radius = fl (fl (1 / 2 * 30) + 20)"
    and g: "geometry (fst (createIrregularPolygon (\<lambda>g p a. []) (\<lambda>i. 1 / 2) 0 0)) = GFromVertices [vs]"
    and n: "int n = \<lfloor>fl (fl ((1 / 2 :: real) * 4) + 4)\<rfloor>"
    and l: "length vs = n"
    and v: "\<forall>i < n. \<exists>j.
                   j = fl (fl (1 / 2 * fl (fl (13 / 10) - fl (7 / 10))) + fl (7 / 10))
                   \<and> fl (7 / 10) \<le> j \<and> j \<le> fl (13 / 10)
                   \<and> vs ! i = \<lparr>vx = cos (real i * (2 * pi / real n)) * (fl (fl (1 / 2 * 20) + 25) * j),
                               vy = sin (real i * (2 * pi / real n)) * (fl (fl (1 / 2 * 20) + 25) * j)\<rparr>"
    by blast
  have n6: "n = 6" using n unfolding f by simp
  have "vs ! 0 = \<lparr>vx = 35, vy = 0\<rparr>" using v unfolding n6 j by simp
  moreover have "radius = 35" using c(2) by simp
  ultimately show ?thesis using u c(1) g l n6 by simp
qed

text \<open>
  C9 as stated fails: when the first draw is the largest double below 1,
  \<open>createIrregularPolygon\<close> builds 8 vertices.
\<close>

theorem irregular_polygon_with_eight_vertices:
  "unitDraws topDraws
   \<and> (\<exists>vs. geometry (fst (createIrregularPolygon (\<lambda>g p a. []) topDraws 0 0))
              = GFromVertices [vs]
         \<and> length vs = 8)"
proof -
  have t: "topDraws i = 1 - 1 / 2 ^ 53" for i by (simp add: topDraws_def)
  have p: "0 \<le> (1 - 1 / 2 ^ 53 :: real)" "(1 - 1 / 2 ^ 53 :: real) < 1" by simp_all
  have u: "unitDraws topDraws" unfolding unitDraws_def t using p fl_top by blast
  have "\<lfloor>fl (fl (topDraws 0 * 4) + 4)\<rfloor> = 8"
    using vertexCount_bounds(3)[of "topDraws 0"] u t by (simp only: unitDraws_def)
  then have "\<exists>vs. geometry (fst (createIrregularPolygon (\<lambda>g p a. []) topDraws 0 0))
              = GFromVertices [vs] \<and> length vs = 8"
    by (simp add: createIrregularPolygon_eq Bodies_create_def)
  with u show ?thesis by blast
qed

section \<open>Shape factory: the random choice of a kind\<close>

lemma fl_nat: "n \<le> 2 ^ 53 \<Longrightarrow> fl (real n) = real n"
  using fl_int[of "int n"] by simp

lemma fl_below_nat:
  assumes "0 \<le> x" "x \<le> real n * (1 - 1 / 2 ^ 53)" "1 \<le> n" "n \<le> 2 ^ 53"
  shows "fl x < real n"
  using fl_below_int[of x "int n"] assms by simp

text \<open>The index \<open>Math.floor(Math.random() * n)\<close> is in range.\<close>

lemma randomIndex_bounds:
  assumes "0 \<le> u" "u \<le> 1 - 1 / 2 ^ 53" "0 < n" "n \<le> 2 ^ 53"
  shows "0 \<le> \<lfloor>fl (u * real n)\<rfloor>" "nat \<lfloor>fl (u * real n)\<rfloor> < n"
proof -
  have x0: "0 \<le> u * real n" using assms(1) by simp
  have "0 \<le> fl (u * real n)" using x0 by (rule fl_nonneg)
  then show f0: "0 \<le> \<lfloor>fl (u * real n)\<rfloor>" by simp
  have "u * real n \<le> (1 - 1 / 2 ^ 53) * real n"
    using assms(2) by (intro mult_right_mono) simp_all
  then have "u * real n \<le> real n * (1 - 1 / 2 ^ 53)" by (simp add: mult.commute)
  then have "fl (u * real n) < real n"
    using fl_below_nat[OF x0, of n] assms(3,4) by simp
  then have "\<lfloor>fl (u * real n)\<rfloor> < int n" by (simp add: floor_less_iff)
  then show "nat \<lfloor>fl (u * real n)\<rfloor> < n" using f0 by linarith
qed

text \<open>
  Index \<open>k\<close> is chosen wherever the exact product is at least \<open>k\<close> and at most
  \<open>(k + 1) * (1 - 2^-53)\<close>.
\<close>

lemma randomIndex_chosen:
  assumes "real k \<le> x" "x \<le> (real k + 1) * (1 - 1 / 2 ^ 53)" "k < 2 ^ 53"
  shows "\<lfloor>fl x\<rfloor> = int k"
proof -
  have k: "k \<le> 2 ^ 53" "Suc k \<le> 2 ^ 53" using assms(3) by simp_all
  have x0: "0 \<le> x" using assms(1) by linarith
  have "fl (real k) \<le> fl x" by (rule fl_mono) (use assms(1) in simp_all)
  then have a: "real k \<le> fl x" unfolding fl_nat[OF k(1)] .
  have "fl x < real (Suc k)"
    by (rule fl_below_nat[OF x0 _ _ k(2)]) (use assms(2) in simp_all)
  then have b: "fl x < real k + 1" by simp
  from a b show ?thesis by (simp add: floor_eq_iff)
qed

text \<open>
  Index \<open>k\<close> is chosen only where the exact product is below \<open>k + 1\<close> and above
  \<open>k * (1 - 2^-53)\<close>.
\<close>

lemma randomIndex_only:
  assumes "\<lfloor>fl x\<rfloor> = int k" "0 \<le> x" "k < 2 ^ 53"
  shows "real k * (1 - 1 / 2 ^ 53) \<le> x" "x < real k + 1"
proof -
  have k: "k \<le> 2 ^ 53" "Suc k \<le> 2 ^ 53" using assms(3) by simp_all
  have f: "real k \<le> fl x" "fl x < real k + 1" using assms(1) by (simp_all add: floor_eq_iff)
  show "x < real k + 1"
  proof (rule ccontr)
    assume "\<not> x < real k + 1"
    then have "real (Suc k) \<le> x" by simp
    then have "fl (real (Suc k)) \<le> fl x" by (intro fl_mono) simp_all
    then have "real (Suc k) \<le> fl x" unfolding fl_nat[OF k(2)] .
    with f(2) show False by simp
  qed
  show "real k * (1 - 1 / 2 ^ 53) \<le> x"
  proof (rule ccontr)
    assume "\<not> real k * (1 - 1 / 2 ^ 53) \<le> x"
    then have lt: "x < real k * (1 - 1 / 2 ^ 53)" by simp
    have "1 \<le> k"
    proof (rule ccontr)
      assume "\<not> 1 \<le> k"
      then have "k = 0" by simp
      with lt assms(2) show False by simp
    qed
    then have "fl x < real k"
      by (intro fl_below_nat[OF assms(2) _ _ k(1)]) (use lt in simp_all)
    with f(1) show False by simp
  qed
qed

lemma polygon_sides:
  "geometry (fst (createPolygon sides lib r x y)) = GPolygon sides (fl (fl (r 0 * 20) + 25))"
  by (simp add: createPolygon_def randomInRange_eq getRandomColor_eq Math_random_def
      Bodies_create_def Let_def split_def)

text \<open>
  C7, as the code has it: \<open>createRandomShape\<close> draws \<open>u\<close> and calls the factory at
  index \<open>floor (fl (u * n))\<close> of \<open>SHAPE_FACTORIES\<close>, \<open>n = 9\<close> its length and
  \<open>fl (u * n)\<close> the product as JavaScript rounds it. For any non-empty array of at most
  \<open>2^53\<close> factories the index is in range, it is \<open>floor (u * n)\<close> or one more, the
  factory at index \<open>k\<close> is called whenever \<open>k \<le> u * n \<le> (k + 1) * (1 - 2^-53)\<close> and only
  when \<open>k * (1 - 2^-53) \<le> u * n < k + 1\<close>, and the choice refers to the array only
  through its length and its entries.
\<close>

theorem createRandomShape_selection:
  assumes "unitDraws r"
  shows "createRandomShape lib r x y = createRandomShapeFrom SHAPE_FACTORIES lib r x y
       \<and> length SHAPE_FACTORIES = 9
       \<and> (\<exists>k < 9. \<lfloor>fl (r 0 * 9)\<rfloor> = int k
             \<and> createRandomShape lib r x y = Inr ((SHAPE_FACTORIES ! k) lib (rdrop 1 r) x y))
       \<and> (fs \<noteq> [] \<and> length fs \<le> 2 ^ 53 \<longrightarrow>
            (\<exists>k < length fs. \<lfloor>fl (r 0 * real (length fs))\<rfloor> = int k
               \<and> createRandomShapeFrom fs lib r x y = Inr ((fs ! k) lib (rdrop 1 r) x y))
          \<and> \<lfloor>r 0 * real (length fs)\<rfloor> \<le> \<lfloor>fl (r 0 * real (length fs))\<rfloor>
          \<and> \<lfloor>fl (r 0 * real (length fs))\<rfloor> \<le> \<lfloor>r 0 * real (length fs)\<rfloor> + 1
          \<and> (\<forall>k < length fs.
               (real k \<le> r 0 * real (length fs)
                  \<and> r 0 * real (length fs) \<le> (real k + 1) * (1 - 1 / 2 ^ 53)
                  \<longrightarrow> \<lfloor>fl (r 0 * real (length fs))\<rfloor> = int k)
             \<and> (\<lfloor>fl (r 0 * real (length fs))\<rfloor> = int k
                  \<longrightarrow> real k * (1 - 1 / 2 ^ 53) \<le> r 0 * real (length fs)
                     \<and> r 0 * real (length fs) < real k + 1)))"
proof -
  have u0: "0 \<le> r 0" "r 0 < 1" "fl (r 0) = r 0" using assms by (simp_all add: unitDraws_def)
  have ut: "r 0 \<le> 1 - 1 / 2 ^ 53" using double_below_one[OF u0(3,1,2)] .
  have a: "createRandomShape lib r x y = createRandomShapeFrom SHAPE_FACTORIES lib r x y"
    by (simp add: createRandomShape_def)
  have b: "length SHAPE_FACTORIES = 9" by (simp add: SHAPE_FACTORIES_def)
  have sel: "\<exists>k < length gs. \<lfloor>fl (r 0 * real (length gs))\<rfloor> = int k
               \<and> createRandomShapeFrom gs lib r x y = Inr ((gs ! k) lib (rdrop 1 r) x y)"
    if n: "0 < length gs" and m: "length gs \<le> 2 ^ 53" for gs
  proof -
    let ?k = "nat \<lfloor>fl (r 0 * real (length gs))\<rfloor>"
    note rb = randomIndex_bounds[OF u0(1) ut n m]
    have fk: "\<lfloor>fl (r 0 * real (length gs))\<rfloor> = int ?k" using rb(1) by simp
    have "createRandomShapeFrom gs lib r x y = Inr ((gs ! ?k) lib (rdrop 1 r) x y)"
      using rb(1,2) by (simp add: createRandomShapeFrom_def Math_random_def jsIndex_def)
    with rb(2) fk show ?thesis by blast
  qed
  have c: "(\<exists>k < length fs. \<lfloor>fl (r 0 * real (length fs))\<rfloor> = int k
               \<and> createRandomShapeFrom fs lib r x y = Inr ((fs ! k) lib (rdrop 1 r) x y))
          \<and> \<lfloor>r 0 * real (length fs)\<rfloor> \<le> \<lfloor>fl (r 0 * real (length fs))\<rfloor>
          \<and> \<lfloor>fl (r 0 * real (length fs))\<rfloor> \<le> \<lfloor>r 0 * real (length fs)\<rfloor> + 1
          \<and> (\<forall>k < length fs.
               (real k \<le> r 0 * real (length fs)
                  \<and> r 0 * real (length fs) \<le> (real k + 1) * (1 - 1 / 2 ^ 53)
                  \<longrightarrow> \<lfloor>fl (r 0 * real (length fs))\<rfloor> = int k)
             \<and> (\<lfloor>fl (r 0 * real (length fs))\<rfloor> = int k
                  \<longrightarrow> real k * (1 - 1 / 2 ^ 53) \<le> r 0 * real (length fs)
                     \<and> r 0 * real (length fs) < real k + 1))"
    if ne: "fs \<noteq> [] \<and> length fs \<le> 2 ^ 53"
  proof -
    let ?x = "r 0 * real (length fs)"
    have n: "0 < length fs" and m: "length fs \<le> 2 ^ 53" using ne by simp_all
    have x0: "0 \<le> ?x" using u0(1) by simp
    have "?x < real (length fs) * 1" using u0(2) n by simp
    also have "\<dots> \<le> 2 ^ 53" using m by (simp add: of_nat_le_numeral_power_cancel_iff)
    finally have x1: "?x < 2 ^ 53" .
    note fb = floor_fl_bounds[OF x0 x1]
    have ch: "real k \<le> ?x \<and> ?x \<le> (real k + 1) * (1 - 1 / 2 ^ 53) \<longrightarrow> \<lfloor>fl ?x\<rfloor> = int k"
      if "k < length fs" for k
      using randomIndex_chosen[of k ?x] that m by simp
    have on: "\<lfloor>fl ?x\<rfloor> = int k \<longrightarrow> real k * (1 - 1 / 2 ^ 53) \<le> ?x \<and> ?x < real k + 1"
      if "k < length fs" for k
      using randomIndex_only[of ?x k, OF _ x0] that m by simp
    from sel[OF n m] fb ch on show ?thesis by blast
  qed
  have d: "\<exists>k < 9. \<lfloor>fl (r 0 * 9)\<rfloor> = int k
             \<and> createRandomShape lib r x y = Inr ((SHAPE_FACTORIES ! k) lib (rdrop 1 r) x y)"
    using sel[of SHAPE_FACTORIES] unfolding a b by simp
  from a b c d show ?thesis by blast
qed

text \<open>With the first draw 1/2 the fifth of the nine factories, \<open>createHexagon\<close>, is called.\<close>

theorem createRandomShape_selection_witness:
  "unitDraws (\<lambda>i. 1 / 2)
   \<and> SHAPE_FACTORIES \<noteq> [] \<and> length SHAPE_FACTORIES \<le> 2 ^ 53
   \<and> createRandomShape (\<lambda>g p a. []) (\<lambda>i. 1 / 2) 0 0
       = Inr (createHexagon (\<lambda>g p a. []) (rdrop 1 (\<lambda>i. 1 / 2)) 0 0)"
proof -
  have u: "unitDraws (\<lambda>i. 1 / 2)" by (simp add: unitDraws_def fl_half)
  have ne: "SHAPE_FACTORIES \<noteq> []" "length SHAPE_FACTORIES \<le> 2 ^ 53"
    by (simp_all add: SHAPE_FACTORIES_def)
  have e: "fl (9 / 2) = 9 / 2"
    using fl_eval[of 2 "9 / 2"] by (simp add: roundEven_def)
  have f: "\<lfloor>fl ((1 / 2 :: real) * 9)\<rfloor> = 4" by (simp add: e)
  have "\<exists>k < 9. \<lfloor>fl ((1 / 2 :: real) * 9)\<rfloor> = int k
          \<and> createRandomShape (\<lambda>g p a. []) (\<lambda>i. 1 / 2) 0 0
              = Inr ((SHAPE_FACTORIES ! k) (\<lambda>g p a. []) (rdrop 1 (\<lambda>i. 1 / 2)) 0 0)"
    using createRandomShape_selection[OF u, of "\<lambda>g p a. []" 0 0 SHAPE_FACTORIES] by blast
  then obtain k where k: "\<lfloor>fl ((1 / 2 :: real) * 9)\<rfloor> = int k"
    and c: "createRandomShape (\<lambda>g p a. []) (\<lambda>i. 1 / 2) 0 0
              = Inr ((SHAPE_FACTORIES ! k) (\<lambda>g p a. []) (rdrop 1 (\<lambda>i. 1 / 2)) 0 0)"
    by blast
  from k have "k = 4" unfolding f by simp
  then have "SHAPE_FACTORIES ! k = createHexagon" by (simp add: SHAPE_FACTORIES_def)
  with c have h: "createRandomShape (\<lambda>g p a. []) (\<lambda>i. 1 / 2) 0 0
       = Inr (createHexagon (\<lambda>g p a. []) (rdrop 1 (\<lambda>i. 1 / 2)) 0 0)"
    by simp
  from u ne h show ?thesis by blast
qed

text \<open>
  C7 as stated fails: the draw \<open>2001599834386887 / 2^52\<close> is below \<open>4/9\<close>, so
  \<open>floor (u * 9)\<close> is 3, the index of \<open>createPentagon\<close>; the product rounds up to 4
  and \<open>createHexagon\<close> is called.
\<close>

theorem createRandomShape_rounds_up:
  "unitDraws tieDraws
   \<and> tieDraws 0 < 4 / 9
   \<and> \<lfloor>tieDraws 0 * 9\<rfloor> = 3
   \<and> SHAPE_FACTORIES ! 3 = createPentagon
   \<and> createRandomShape (\<lambda>g p a. []) tieDraws 0 0
       = Inr (createHexagon (\<lambda>g p a. []) (rdrop 1 tieDraws) 0 0)
   \<and> createRandomShape (\<lambda>g p a. []) tieDraws 0 0
       \<noteq> Inr ((SHAPE_FACTORIES ! nat \<lfloor>tieDraws 0 * 9\<rfloor>) (\<lambda>g p a. []) (rdrop 1 tieDraws) 0 0)"
proof -
  have t: "tieDraws i = 2001599834386887 / 4503599627370496" for i
    by (simp add: tieDraws_def)
  have p: "0 \<le> (2001599834386887 / 4503599627370496 :: real)"
    "(2001599834386887 / 4503599627370496 :: real) < 1" by simp_all
  have u: "unitDraws tieDraws" unfolding unitDraws_def t using p fl_draw_idx by blast
  have lt: "tieDraws 0 < 4 / 9" unfolding t by simp
  have f3: "\<lfloor>tieDraws 0 * 9\<rfloor> = 3" unfolding t by simp
  have p3: "SHAPE_FACTORIES ! 3 = createPentagon" by (simp add: SHAPE_FACTORIES_def)
  have "fl (tieDraws 0 * real (length SHAPE_FACTORIES)) = 4"
    unfolding t using fl_tie_idx by (simp add: SHAPE_FACTORIES_def)
  then have h: "createRandomShape (\<lambda>g p a. []) tieDraws 0 0
       = Inr (createHexagon (\<lambda>g p a. []) (rdrop 1 tieDraws) 0 0)"
    by (simp add: createRandomShape_def createRandomShapeFrom_def Math_random_def jsIndex_def
        SHAPE_FACTORIES_def)
  have "geometry (fst (createHexagon (\<lambda>g p a. []) (rdrop 1 tieDraws) 0 0))
      \<noteq> geometry (fst (createPentagon (\<lambda>g p a. []) (rdrop 1 tieDraws) 0 0))"
    unfolding createHexagon_def createPentagon_def polygon_sides by simp
  then have "createHexagon (\<lambda>g p a. []) (rdrop 1 tieDraws) 0 0
      \<noteq> createPentagon (\<lambda>g p a. []) (rdrop 1 tieDraws) 0 0"
    by auto
  then have ne: "createRandomShape (\<lambda>g p a. []) tieDraws 0 0
       \<noteq> Inr ((SHAPE_FACTORIES ! nat \<lfloor>tieDraws 0 * 9\<rfloor>) (\<lambda>g p a. []) (rdrop 1 tieDraws) 0 0)"
    unfolding h f3 by (simp add: p3)
  from u lt f3 p3 h ne show ?thesis by blast
qed

section \<open>Physics hook: engine creation and start\<close>

text \<open>
  C3: on an 800 by 600 canvas with the configuration of the source, the engine is created
  and the runner started; the engine takes \<open>enableSleeping\<close> and both iteration counts
  from \<open>PHYSICS_CONFIG\<close>, but its gravity is the literal \<open>(0, 0.5)\<close> of the call, not
  \<open>PHYSICS_CONFIG.gravity = (0, 1)\<close>.
\<close>

theorem engine_gravity_not_from_config:
  "\<exists>s. useMatterEffect CONFIG lib True 800 600 = Some s
     \<and> runnerRunning s
     \<and> gravity (engine s) = \<lparr>vx = 0, vy = 1 / 2\<rparr>
     \<and> gravity (physics CONFIG) = \<lparr>vx = 0, vy = 1\<rparr>
     \<and> gravity (engine s) \<noteq> gravity (physics CONFIG)
     \<and> enableSleeping (engine s) = enableSleeping (physics CONFIG)
     \<and> positionIterations (engine s) = positionIterations (physics CONFIG)
     \<and> velocityIterations (engine s) = velocityIterations (physics CONFIG)"
  by (simp add: useMatterEffect_def CONFIG_def PHYSICS_CONFIG_def Let_def)

lemma useMatterEffect_started:
  "(\<exists>s. useMatterEffect cfg lib canvas width height = Some s \<and> runnerRunning s)
     = (canvas \<and> width \<noteq> 0 \<and> height \<noteq> 0)"
  by (simp add: useMatterEffect_def Let_def)

text \<open>
  C6, as the code has it: the effect checks no coefficient. Whatever the configuration,
  it creates the engine and starts the runner exactly when the canvas element exists and
  width and height are both non-zero, it returns early exactly otherwise, and changing
  the body coefficients of the configuration changes nothing of its result.
\<close>

theorem useMatterEffect_no_validation:
  "((\<exists>s. useMatterEffect cfg lib canvas width height = Some s \<and> runnerRunning s)
      = (canvas \<and> width \<noteq> 0 \<and> height \<noteq> 0))
   \<and> (useMatterEffect cfg lib canvas width height = None) = (\<not> canvas \<or> width = 0 \<or> height = 0)
   \<and> useMatterEffect (cfg\<lparr>bodyDefaults := bd\<rparr>) lib canvas width height
       = useMatterEffect cfg lib canvas width height"
  by (simp add: useMatterEffect_def Let_def)

text \<open>
  The source's configuration on an 800 by 600 canvas starts the runner; without the
  canvas element, or with width 0, the effect returns early.
\<close>

theorem useMatterEffect_no_validation_witness:
  "(\<exists>s. useMatterEffect CONFIG (\<lambda>g p a. []) True 800 600 = Some s \<and> runnerRunning s)
   \<and> useMatterEffect CONFIG (\<lambda>g p a. []) False 800 600 = None
   \<and> useMatterEffect CONFIG (\<lambda>g p a. []) True 0 600 = None"
  using useMatterEffect_no_validation[of CONFIG "\<lambda>g p a. []" True 800 600]
    useMatterEffect_no_validation[of CONFIG "\<lambda>g p a. []" False 800 600]
    useMatterEffect_no_validation[of CONFIG "\<lambda>g p a. []" True 0 600]
  by simp

text \<open>
  C6 as stated fails: with restitution 1.5 and density -1 configured, the effect still
  starts the runner.
\<close>

theorem out_of_range_config_starts_runner:
  "\<exists>s. restitution (bodyDefaults (CONFIG\<lparr>bodyDefaults := BODY_DEFAULTS\<lparr>restitution := 3 / 2, density := - 1\<rparr>\<rparr>)) > 1
     \<and> density (bodyDefaults (CONFIG\<lparr>bodyDefaults := BODY_DEFAULTS\<lparr>restitution := 3 / 2, density := - 1\<rparr>\<rparr>)) < 0
     \<and> useMatterEffect (CONFIG\<lparr>bodyDefaults := BODY_DEFAULTS\<lparr>restitution := 3 / 2, density := - 1\<rparr>\<rparr>)
           (\<lambda>g p a. []) True 800 600 = Some s
     \<and> runnerRunning s"
  by (simp add: useMatterEffect_def Let_def)


section \<open>Physics hook: off-screen culling\<close>

lemma fold_remove1_filter:
  "\<forall>z \<in> set zs. \<not> P z \<Longrightarrow>
   fold remove1 (filter P xs) (zs @ xs) = zs @ filter (\<lambda>x. \<not> P x) xs"
proof (induction xs arbitrary: zs)
  case Nil
  then show ?case by simp
next
  case (Cons x xs)
  show ?case
  proof (cases "P x")
    case True
    then have "x \<notin> set zs" using Cons.prems by blast
    then have "remove1 x (zs @ x # xs) = zs @ xs" by (simp add: remove1_append)
    then show ?thesis using True Cons.IH[OF Cons.prems] by simp
  next
    case False
    then have "\<forall>z \<in> set (zs @ [x]). \<not> P z" using Cons.prems by simp
    from Cons.IH[OF this] False show ?thesis by simp
  qed
qed

text \<open>
  Splicing out, one by one, the bodies that satisfy a test leaves the others in their
  order.
\<close>

lemma World_remove_filter:
  "World_remove ws (filter P ws) = filter (\<lambda>x. \<not> P x) ws"
  unfolding World_remove_def using fold_remove1_filter[of "[]" P ws] by simp

lemma cullOffscreenBodies_worldBodies:
  "worldBodies (cullOffscreenBodies height s)
     = filter (\<lambda>ref. \<not> offscreen height s ref) (worldBodies s)"
proof (cases "filter (offscreen height s) (worldBodies s) = []")
  case True
  then have "\<forall>ref \<in> set (worldBodies s). \<not> offscreen height s ref"
    by (simp add: filter_empty_conv)
  then have "filter (\<lambda>ref. \<not> offscreen height s ref) (worldBodies s) = worldBodies s"
    by simp
  with True show ?thesis by (simp add: cullOffscreenBodies_def)
next
  case False
  then show ?thesis by (simp add: cullOffscreenBodies_def World_remove_filter)
qed

lemma cullOffscreenBodies_objects:
  "objects (cullOffscreenBodies height s) = objects s"
  by (simp add: cullOffscreenBodies_def Let_def)

lemma offscreen_cull:
  "offscreen height (cullOffscreenBodies height s) ref = offscreen height s ref"
  by (simp add: offscreen_def cullOffscreenBodies_objects)

lemma afterUpdate_frameCount_iter:
  "frameCount s < 60 \<Longrightarrow> frameCount ((afterUpdate ^^ n) s) = (frameCount s + n) mod 60"
proof (induction n)
  case 0
  then show ?case by simp
next
  case (Suc n)
  let ?t = "(afterUpdate ^^ n) s"
  have ih: "frameCount ?t = (frameCount s + n) mod 60" using Suc by simp
  have lt: "frameCount ?t < 60" using ih by simp
  have "frameCount (afterUpdate ?t) = (if frameCount ?t + 1 \<ge> 60 then 0 else frameCount ?t + 1)"
    by (simp add: afterUpdate_def Let_def)
  also have "\<dots> = (frameCount ?t + 1) mod 60"
  proof (cases "frameCount ?t = 59")
    case True
    then show ?thesis by simp
  next
    case False
    with lt show ?thesis by simp
  qed
  also have "\<dots> = (frameCount s + Suc n) mod 60" using ih by (simp add: mod_Suc_eq)
  finally show ?case by simp
qed

text \<open>
  What \<open>cullOffscreenBodies\<close> would do if it were called: it removes from the World
  exactly the non-static bodies whose \<open>position.y\<close> exceeds the canvas height plus
  \<open>CULLING_CONFIG.bufferZone\<close>, keeps all other bodies in their order (every static body
  among them), changes no body, and a second run removes nothing more. The
  \<open>afterUpdate\<close> listener counts ticks modulo 60.
\<close>

lemma cullOffscreenBodies_spec:
  "worldBodies (cullOffscreenBodies height s)
     = filter (\<lambda>ref. \<not> offscreen height s ref) (worldBodies s)
   \<and> objects (cullOffscreenBodies height s) = objects s
   \<and> (\<forall>ref \<in> set (worldBodies (cullOffscreenBodies height s)). \<forall>b.
         objects (cullOffscreenBodies height s) ref = Some b \<longrightarrow>
           isStatic b \<or> vy (position b) \<le> real height + bufferZone CULLING_CONFIG)
   \<and> (\<forall>ref \<in> set (worldBodies s).
         isStaticRef s ref \<longrightarrow> ref \<in> set (worldBodies (cullOffscreenBodies height s)))
   \<and> cullOffscreenBodies height (cullOffscreenBodies height s) = cullOffscreenBodies height s
   \<and> (frameCount s < 60 \<longrightarrow> frameCount ((afterUpdate ^^ n) s) = (frameCount s + n) mod 60)"
proof -
  let ?c = "cullOffscreenBodies height s"
  have w: "worldBodies ?c = filter (\<lambda>ref. \<not> offscreen height s ref) (worldBodies s)"
    by (rule cullOffscreenBodies_worldBodies)
  have o: "objects ?c = objects s" by (rule cullOffscreenBodies_objects)
  have inv: "\<forall>ref \<in> set (worldBodies ?c). \<forall>b. objects ?c ref = Some b \<longrightarrow>
           isStatic b \<or> vy (position b) \<le> real height + bufferZone CULLING_CONFIG"
    unfolding w o by (auto simp: offscreen_def Let_def)
  have st: "\<forall>ref \<in> set (worldBodies s). isStaticRef s ref \<longrightarrow> ref \<in> set (worldBodies ?c)"
    unfolding w by (auto simp: offscreen_def isStaticRef_def Let_def split: option.splits)
  have "filter (offscreen height ?c) (worldBodies ?c) = []"
    unfolding offscreen_cull w by (simp add: filter_empty_conv)
  then have idem: "cullOffscreenBodies height ?c = ?c"
    by (subst cullOffscreenBodies_def) simp
  have fc: "frameCount s < 60 \<longrightarrow> frameCount ((afterUpdate ^^ n) s) = (frameCount s + n) mod 60"
    using afterUpdate_frameCount_iter by blast
  from w o inv st idem fc show ?thesis by blast
qed

lemma afterUpdate_iter_world:
  "worldBodies ((afterUpdate ^^ n) s) = worldBodies s
   \<and> objects ((afterUpdate ^^ n) s) = objects s"
  by (induction n) (simp_all add: afterUpdate_def Let_def)

lemma fallenWorld_eq:
  "\<exists>s. fallenWorld = Some s \<and> worldBodies s = [0, 1, 2, 3] \<and> frameCount s = 0
     \<and> objects s 3 = Some (Bodies_create (\<lambda>g p a. []) (GCircle 30) 100 5000
          (shapeOptions None (Some ''#FF00FF'')))
     \<and> (\<exists>b0 b1 b2. objects s 0 = Some b0 \<and> isStatic b0 \<and> objects s 1 = Some b1 \<and> isStatic b1
           \<and> objects s 2 = Some b2 \<and> isStatic b2)"
  by (simp add: fallenWorld_def addBody_def useMatterEffect_def Let_def Bodies_create_def
      wallOptions_def orDefault_def)

text \<open>
  On the example world of height 600, a call of \<open>cullOffscreenBodies\<close> would remove
  the fallen circle and keep the three walls; the tick counter is back at 0 after 60
  ticks.
\<close>

lemma cullOffscreenBodies_fallenWorld:
  "\<exists>s. fallenWorld = Some s
     \<and> worldBodies s = [0, 1, 2, 3]
     \<and> offscreen 600 s 3
     \<and> isStaticRef s 0
     \<and> frameCount s < 60
     \<and> worldBodies (cullOffscreenBodies 600 s) = [0, 1, 2]
     \<and> frameCount ((afterUpdate ^^ 60) s) = 0
     \<and> frameCount ((afterUpdate ^^ 61) s) = 1"
proof -
  obtain s where s: "fallenWorld = Some s" "worldBodies s = [0, 1, 2, 3]" "frameCount s = 0"
    "objects s 3 = Some (Bodies_create (\<lambda>g p a. []) (GCircle 30) 100 5000
          (shapeOptions None (Some ''#FF00FF'')))"
    and walls: "\<exists>b0 b1 b2. objects s 0 = Some b0 \<and> isStatic b0 \<and> objects s 1 = Some b1
           \<and> isStatic b1 \<and> objects s 2 = Some b2 \<and> isStatic b2"
    using fallenWorld_eq by blast
  have off: "offscreen 600 s 3" "\<not> offscreen 600 s 0" "\<not> offscreen 600 s 1"
    "\<not> offscreen 600 s 2"
    using s(4) walls
    by (auto simp: offscreen_def Bodies_create_def shapeOptions_def orDefault_def
        CULLING_CONFIG_def Let_def)
  have st: "isStaticRef s 0" using walls by (auto simp: isStaticRef_def)
  have c: "worldBodies (cullOffscreenBodies 600 s) = [0, 1, 2]"
    using cullOffscreenBodies_spec[of 600 s 60] s(2) off by simp
  have f60: "frameCount ((afterUpdate ^^ 60) s) = 0"
    using cullOffscreenBodies_spec[of 600 s 60] s(3) by simp
  have f61: "frameCount ((afterUpdate ^^ 61) s) = 1"
    using cullOffscreenBodies_spec[of 600 s 61] s(3) by simp
  show ?thesis
    using s(1,2,3) off(1) st c f60 f61 by (intro exI[of _ s]) simp
qed

text \<open>
  C1: the \<open>afterUpdate\<close> listener of a tick never calls \<open>cullOffscreenBodies\<close>, so
  no tick removes a body. On the 800 by 600 canvas the non-static circle at
  \<open>y = 5000\<close>, beyond the bound of \<open>600 + 500\<close>, is still in the World after the
  listener of one tick has run, and after 60 ticks as well.
\<close>

theorem fallen_body_survives_ticks:
  "\<exists>s b. fallenWorld = Some s
     \<and> 3 \<in> set (worldBodies (afterUpdate s))
     \<and> objects (afterUpdate s) 3 = Some b
     \<and> \<not> isStatic b
     \<and> vy (position b) > real 600 + bufferZone CULLING_CONFIG
     \<and> 3 \<in> set (worldBodies ((afterUpdate ^^ 60) s))"
proof -
  obtain s where s: "fallenWorld = Some s" "worldBodies s = [0, 1, 2, 3]"
    "objects s 3 = Some (Bodies_create (\<lambda>g p a. []) (GCircle 30) 100 5000
          (shapeOptions None (Some ''#FF00FF'')))"
    using fallenWorld_eq by blast
  let ?b = "Bodies_create (\<lambda>g p a. []) (GCircle 30) 100 5000
          (shapeOptions None (Some ''#FF00FF''))"
  have w: "worldBodies (afterUpdate s) = worldBodies s" "objects (afterUpdate s) = objects s"
    using afterUpdate_iter_world[of 1 s] by simp_all
  have b: "\<not> isStatic ?b" "vy (position ?b) > real 600 + bufferZone CULLING_CONFIG"
    by (simp_all add: Bodies_create_def shapeOptions_def orDefault_def CULLING_CONFIG_def)
  show ?thesis
    using s w b afterUpdate_iter_world[of 60 s]
    by (intro exI[of _ s] exI[of _ ?b]) simp
qed

section \<open>Physics hook: the click listener\<close>

lemma Body_applyForce_at_centre:
  "Body_applyForce b (position b) f
     = b\<lparr>force := \<lparr>vx = vx (force b) + vx f, vy = vy (force b) + vy f\<rparr>\<rparr>"
  by (simp add: Body_applyForce_def)

text \<open>
  C2, as the code has it: the click listener applies the upward force \<open>(0, -0.05)\<close>, at
  the body's own position and so without torque, to the body the mouse constraint holds
  when that body is not static, and it does nothing at all when the constraint holds no
  body or a static one. The impulse therefore goes only to a body the drag constraint
  is attached to; the listener changes neither the constraint nor the World's list, nor
  any other body.
\<close>

theorem handleMouseClick_impulse_iff_held:
  "(\<forall>ref b. mouseConstraintBody s = Some ref \<and> objects s ref = Some b \<and> \<not> isStatic b \<longrightarrow>
       handleMouseClick s
         = s\<lparr>objects := (objects s)
               (ref \<mapsto> b\<lparr>force := \<lparr>vx = vx (force b), vy = vy (force b) - 5 / 100\<rparr>\<rparr>)\<rparr>)
   \<and> ((\<nexists>ref b. mouseConstraintBody s = Some ref \<and> objects s ref = Some b \<and> \<not> isStatic b) \<longrightarrow>
       handleMouseClick s = s)
   \<and> mouseConstraintBody (handleMouseClick s) = mouseConstraintBody s
   \<and> worldBodies (handleMouseClick s) = worldBodies s
   \<and> (\<forall>ref. mouseConstraintBody s \<noteq> Some ref \<longrightarrow>
         objects (handleMouseClick s) ref = objects s ref)"
proof -
  have a: "\<forall>ref b. mouseConstraintBody s = Some ref \<and> objects s ref = Some b \<and> \<not> isStatic b \<longrightarrow>
       handleMouseClick s
         = s\<lparr>objects := (objects s)
               (ref \<mapsto> b\<lparr>force := \<lparr>vx = vx (force b), vy = vy (force b) - 5 / 100\<rparr>\<rparr>)\<rparr>"
    by (simp add: handleMouseClick_def Body_applyForce_at_centre)
  have b: "(\<nexists>ref b. mouseConstraintBody s = Some ref \<and> objects s ref = Some b \<and> \<not> isStatic b) \<longrightarrow>
       handleMouseClick s = s"
    by (auto simp: handleMouseClick_def split: option.splits)
  have c: "mouseConstraintBody (handleMouseClick s) = mouseConstraintBody s"
    "worldBodies (handleMouseClick s) = worldBodies s"
    by (simp_all add: handleMouseClick_def split: option.splits)
  have d: "\<forall>ref. mouseConstraintBody s \<noteq> Some ref \<longrightarrow>
         objects (handleMouseClick s) ref = objects s ref"
    by (auto simp: handleMouseClick_def split: option.splits)
  from a b c d show ?thesis by blast
qed

lemma heldWorld_eq:
  "\<exists>s. heldWorld = Some s \<and> mouseConstraintBody s = Some 3
     \<and> objects s 3 = Some (Bodies_create (\<lambda>g p a. []) (GCircle 30) 100 300
             (shapeOptions None (Some ''#FF00FF'')))"
  by (simp add: heldWorld_def addBody_def useMatterEffect_def Let_def)

text \<open>
  C2 as stated fails: in a state where the drag constraint holds body 3, a click applies
  the impulse to body 3 and the constraint still holds it afterwards.
\<close>

theorem click_impulse_on_dragged_body:
  "\<exists>s b b'. heldWorld = Some s
     \<and> mouseConstraintBody s = Some 3
     \<and> objects s 3 = Some b \<and> \<not> isStatic b \<and> force b = \<lparr>vx = 0, vy = 0\<rparr>
     \<and> objects (handleMouseClick s) 3 = Some b'
     \<and> force b' = \<lparr>vx = 0, vy = - (5 / 100)\<rparr>
     \<and> mouseConstraintBody (handleMouseClick s) = Some 3"
proof -
  let ?b = "Bodies_create (\<lambda>g p a. []) (GCircle 30) 100 300
             (shapeOptions None (Some ''#FF00FF''))"
  obtain s where s: "heldWorld = Some s" "mouseConstraintBody s = Some 3"
    "objects s 3 = Some ?b"
    using heldWorld_eq by blast
  have b: "\<not> isStatic ?b" "force ?b = \<lparr>vx = 0, vy = 0\<rparr>"
    by (simp_all add: Bodies_create_def shapeOptions_def orDefault_def)
  have c: "objects (handleMouseClick s) 3 = Some (Body_applyForce ?b (position ?b) \<lparr>vx = 0, vy = - (5 / 100)\<rparr>)"
    "mouseConstraintBody (handleMouseClick s) = Some 3"
    using s b by (simp_all add: handleMouseClick_def)
  have f: "force (Body_applyForce ?b (position ?b) \<lparr>vx = 0, vy = - (5 / 100)\<rparr>) = \<lparr>vx = 0, vy = - (5 / 100)\<rparr>"
    using b by (simp add: Body_applyForce_def)
  show ?thesis
    using s b c f
    by (intro exI[of _ s] exI[of _ ?b]
        exI[of _ "Body_applyForce ?b (position ?b) \<lparr>vx = 0, vy = - (5 / 100)\<rparr>"]) simp
qed

text \<open>
  A click while body 3 is held adds the force to it; a click on the freshly created
  world, where nothing is held, changes nothing.
\<close>

theorem handleMouseClick_impulse_iff_held_witness:
  "\<exists>s s0 b. heldWorld = Some s
     \<and> mouseConstraintBody s = Some 3 \<and> objects s 3 = Some b \<and> \<not> isStatic b
     \<and> handleMouseClick s
         = s\<lparr>objects := (objects s)
               (3 \<mapsto> b\<lparr>force := \<lparr>vx = vx (force b), vy = vy (force b) - 5 / 100\<rparr>\<rparr>)\<rparr>
     \<and> useMatterEffect CONFIG (\<lambda>g p a. []) True 800 600 = Some s0
     \<and> mouseConstraintBody s0 = None
     \<and> handleMouseClick s0 = s0"
proof -
  let ?b = "Bodies_create (\<lambda>g p a. []) (GCircle 30) 100 300
             (shapeOptions None (Some ''#FF00FF''))"
  obtain s where s: "heldWorld = Some s" "mouseConstraintBody s = Some 3"
    "objects s 3 = Some ?b"
    using heldWorld_eq by blast
  have b: "\<not> isStatic ?b"
    by (simp add: Bodies_create_def shapeOptions_def orDefault_def)
  obtain s0 where s0: "useMatterEffect CONFIG (\<lambda>g p a. []) True 800 600 = Some s0"
    "mouseConstraintBody s0 = None"
    by (simp add: useMatterEffect_def Let_def)
  have h: "handleMouseClick s
         = s\<lparr>objects := (objects s)
               (3 \<mapsto> ?b\<lparr>force := \<lparr>vx = vx (force ?b), vy = vy (force ?b) - 5 / 100\<rparr>\<rparr>)\<rparr>"
    using handleMouseClick_impulse_iff_held[of s] s b by blast
  have n: "handleMouseClick s0 = s0"
    using handleMouseClick_impulse_iff_held[of s0] s0(2) by simp
  show ?thesis
    using s b h s0 n by (intro exI[of _ s] exI[of _ s0] exI[of _ ?b]) simp
qed

section \<open>Canvas component: the collision flash\<close>

lemma cosmeticOnly_refl: "cosmeticOnly s s"
  by (simp add: cosmeticOnly_def)

lemma cosmeticOnly_trans:
  assumes "cosmeticOnly s t" "cosmeticOnly t u"
  shows "cosmeticOnly s u"
proof -
  have a: "\<forall>ref. map_option eraseFill (objects u ref) = map_option eraseFill (objects s ref)"
    using assms by (simp add: cosmeticOnly_def)
  have b: "\<forall>ref b. objects s ref = Some b \<and> isStatic b \<longrightarrow> objects u ref = Some b"
  proof (intro allI impI)
    fix ref b assume h: "objects s ref = Some b \<and> isStatic b"
    then have "objects t ref = Some b" using assms(1) unfolding cosmeticOnly_def by blast
    with h show "objects u ref = Some b" using assms(2) unfolding cosmeticOnly_def by blast
  qed
  from a b show ?thesis by (simp add: cosmeticOnly_def)
qed

lemma isStaticRef_flashBody: "isStaticRef (flashBody r s) ref = isStaticRef s ref"
proof (cases "objects s r")
  case None
  then show ?thesis by (simp add: flashBody_def)
next
  case (Some b)
  then show ?thesis by (simp add: flashBody_def isStaticRef_def Let_def)
qed

lemma cosmeticOnly_flashBody:
  assumes "\<not> isStaticRef s r"
  shows "cosmeticOnly s (flashBody r s)"
proof (cases "objects s r")
  case None
  then show ?thesis by (simp add: flashBody_def cosmeticOnly_refl)
next
  case (Some b)
  then have ns: "\<not> isStatic b" using assms by (simp add: isStaticRef_def)
  have o: "objects (flashBody r s)
             = (objects s)(r \<mapsto> b\<lparr>render := (render b)\<lparr>fillStyle := Some ''#FFFFFF''\<rparr>\<rparr>)"
    using Some by (simp add: flashBody_def Let_def)
  show ?thesis
    unfolding cosmeticOnly_def o using Some ns by (simp add: eraseFill_def)
qed

lemma cosmeticOnly_fold_flashBody:
  "\<forall>r \<in> set rs. \<not> isStaticRef s r \<Longrightarrow> cosmeticOnly s (fold flashBody rs s)"
proof (induction rs arbitrary: s)
  case Nil
  then show ?case by (simp add: cosmeticOnly_refl)
next
  case (Cons r rs)
  have a: "cosmeticOnly s (flashBody r s)" using Cons.prems by (simp add: cosmeticOnly_flashBody)
  have "\<forall>q \<in> set rs. \<not> isStaticRef (flashBody r s) q"
    using Cons.prems by (simp add: isStaticRef_flashBody)
  from Cons.IH[OF this] have "cosmeticOnly (flashBody r s) (fold flashBody rs (flashBody r s))" .
  from cosmeticOnly_trans[OF a this] show ?case by simp
qed

lemma cosmeticOnly_flashPair: "cosmeticOnly s (flashPair p s)"
proof (cases p)
  case (Pair a b)
  have "\<forall>r \<in> set (filter (\<lambda>ref. \<not> isStaticRef s ref) [a, b]). \<not> isStaticRef s r" by simp
  from cosmeticOnly_fold_flashBody[OF this] Pair show ?thesis
    by (simp only: flashPair_def Let_def prod.case)
qed

text \<open>
  The frame of the collision handler: whatever the pairs, it changes nothing but the fill
  colour of non-static bodies, and it leaves the World's list of bodies alone.
\<close>

lemma handleCollision_cosmeticOnly: "cosmeticOnly s (handleCollision pairs s)"
  unfolding handleCollision_def
proof (induction pairs arbitrary: s)
  case Nil
  then show ?case by (simp add: cosmeticOnly_refl)
next
  case (Cons p ps)
  show ?case
    using cosmeticOnly_trans[OF cosmeticOnly_flashPair[of s p] Cons.IH[of "flashPair p s"]]
    by simp
qed

lemma flashBody_world: "worldBodies (flashBody r t) = worldBodies t"
  by (cases "objects t r") (simp_all add: flashBody_def Let_def)

lemma fold_flashBody_world: "worldBodies (fold flashBody rs t) = worldBodies t"
  by (induction rs arbitrary: t) (simp_all add: flashBody_world)

lemma flashPair_world: "worldBodies (flashPair p t) = worldBodies t"
  by (cases p) (simp only: flashPair_def Let_def prod.case fold_flashBody_world)

lemma handleCollision_world:
  "worldBodies (handleCollision pairs s) = worldBodies s"
  unfolding handleCollision_def
  by (induction pairs arbitrary: s) (simp_all add: flashPair_world)

lemma collisionWorld_eq:
  "\<exists>s m g f. collisionWorld = Some s \<and> now s = 0 \<and> timers s = []
     \<and> objects s 3 = Some m \<and> \<not> isStatic m \<and> fillStyle (render m) = Some ''#FF00FF''
     \<and> objects s 4 = Some g \<and> \<not> isStatic g
     \<and> objects s 0 = Some f \<and> isStatic f"
  by (simp add: collisionWorld_def addBody_def useMatterEffect_def Let_def Bodies_create_def
      shapeOptions_def wallOptions_def orDefault_def)

lemma flashBody_Some:
  assumes "objects s r = Some b"
  shows "objects (flashBody r s)
           = (objects s)(r \<mapsto> b\<lparr>render := (render b)\<lparr>fillStyle := Some ''#FFFFFF''\<rparr>\<rparr>)"
    and "timers (flashBody r s) = timers s @ [(now s + 100, r, fillStyle (render b))]"
    and "now (flashBody r s) = now s"
  using assms by (simp_all add: flashBody_def Let_def)

lemma restoreColor_Some:
  assumes "objects s r = Some b"
  shows "objects (restoreColor (d, r, c) s)
           = (objects s)(r \<mapsto> b\<lparr>render := (render b)\<lparr>fillStyle := c\<rparr>\<rparr>)"
  using assms by (simp add: restoreColor_def)

lemma flashPair_both:
  "\<not> isStaticRef s a \<Longrightarrow> \<not> isStaticRef s b \<Longrightarrow>
   flashPair (a, b) s = flashBody b (flashBody a s)"
  by (simp add: flashPair_def)

lemma flashPair_first:
  "\<not> isStaticRef s a \<Longrightarrow> isStaticRef s b \<Longrightarrow> flashPair (a, b) s = flashBody a s"
  by (simp add: flashPair_def)

lemma restoreColor_clock:
  "restoreColor t (u\<lparr>timers := ts, now := n\<rparr>) = (restoreColor t u)\<lparr>timers := ts, now := n\<rparr>"
  by (cases t) (simp add: restoreColor_def split: option.splits)

lemma fold_restoreColor_clock:
  "fold restoreColor ts (u\<lparr>timers := ts', now := n\<rparr>)
     = (fold restoreColor ts u)\<lparr>timers := ts', now := n\<rparr>"
  by (induction ts arbitrary: u) (simp_all add: restoreColor_clock)

text \<open>When every pending callback is due, all of them run, in order; when none is, none does.\<close>

lemma advanceTo_all_due:
  assumes "\<forall>t \<in> set (timers s). fst t \<le> T"
  shows "advanceTo T s = (fold restoreColor (timers s) s)\<lparr>timers := [], now := max T (now s)\<rparr>"
proof -
  have d: "filter (\<lambda>(d, ref, c). d \<le> T) (timers s) = timers s"
    using assms by (auto simp: filter_id_conv)
  have p: "filter (\<lambda>(d, ref, c). \<not> d \<le> T) (timers s) = []"
    using assms by (auto simp: filter_empty_conv)
  show ?thesis
    unfolding advanceTo_def Let_def d p by (rule fold_restoreColor_clock)
qed

lemma advanceTo_none_due:
  assumes "\<forall>t \<in> set (timers s). \<not> fst t \<le> T"
  shows "advanceTo T s = s\<lparr>now := max T (now s)\<rparr>"
proof -
  have d: "filter (\<lambda>(d, ref, c). d \<le> T) (timers s) = []"
    using assms by (auto simp: filter_empty_conv)
  have p: "filter (\<lambda>(d, ref, c). \<not> d \<le> T) (timers s) = timers s"
    using assms by (auto simp: filter_id_conv)
  show ?thesis
    unfolding advanceTo_def Let_def d p by simp
qed

text \<open>
  C5 at a failing input: body 3, magenta, takes part in two collision pairs, with body 4
  and with the floor. The second flash captures white as the colour to restore. With both
  pairs in one \<open>collisionStart\<close> event, body 3 is white once the flash delay of 100 ms
  has passed, not magenta as before its first flash. With the pairs in two events 50 ms
  apart, body 3 is white after the last callback at 150 ms. Either way no callback is
  left to bring magenta back: the flash does not end.
\<close>

theorem overlapping_flashes_leave_body_white:
  "\<exists>s b b' b''. collisionWorld = Some s
     \<and> objects s 3 = Some b \<and> \<not> isStatic b \<and> fillStyle (render b) = Some ''#FF00FF''
     \<and> objects (advanceTo 100 (handleCollision [(3, 4), (3, 0)] s)) 3 = Some b'
     \<and> fillStyle (render b') = Some ''#FFFFFF''
     \<and> timers (advanceTo 100 (handleCollision [(3, 4), (3, 0)] s)) = []
     \<and> objects (advanceTo 150 (handleCollision [(3, 0)] (advanceTo 50 (handleCollision [(3, 4)] s)))) 3
         = Some b''
     \<and> fillStyle (render b'') = Some ''#FFFFFF''
     \<and> timers (advanceTo 150 (handleCollision [(3, 0)] (advanceTo 50 (handleCollision [(3, 4)] s)))) = []"
proof -
  obtain s m g f where s: "collisionWorld = Some s" "now s = 0" "timers s = []"
    "objects s 3 = Some m" "objects s 4 = Some g" "objects s 0 = Some f"
    and st: "\<not> isStatic m" "\<not> isStatic g" "isStatic f"
    and fm: "fillStyle (render m) = Some ''#FF00FF''"
    using collisionWorld_eq by blast
  let ?w = "m\<lparr>render := (render m)\<lparr>fillStyle := Some ''#FFFFFF''\<rparr>\<rparr>"
  let ?gw = "g\<lparr>render := (render g)\<lparr>fillStyle := Some ''#FFFFFF''\<rparr>\<rparr>"
  have ww: "?w\<lparr>render := (render ?w)\<lparr>fillStyle := Some ''#FFFFFF''\<rparr>\<rparr> = ?w" by simp
  have w: "fillStyle (render ?w) = Some ''#FFFFFF''" by simp
  \<comment> \<open>the first pair: bodies 3 and 4 flash\<close>
  let ?s1 = "flashBody 3 s"
  have s1: "objects ?s1 = (objects s)(3 \<mapsto> ?w)"
    "timers ?s1 = [(100, 3, Some ''#FF00FF'')]" "now ?s1 = 0"
    using flashBody_Some[OF s(4)] s(2,3) fm by simp_all
  have s1_4: "objects ?s1 4 = Some g" using s1(1) s(5) by simp
  let ?s2 = "flashBody 4 ?s1"
  have s2: "objects ?s2 = (objects s)(3 \<mapsto> ?w, 4 \<mapsto> ?gw)"
    "timers ?s2 = [(100, 3, Some ''#FF00FF''), (100, 4, fillStyle (render g))]" "now ?s2 = 0"
    using flashBody_Some[OF s1_4] s1 by simp_all
  have ns: "\<not> isStaticRef s 3" "\<not> isStaticRef s 4" "isStaticRef s 0"
    using s(4,5,6) st by (simp_all add: isStaticRef_def)
  have p1: "flashPair (3, 4) s = ?s2" using ns by (simp add: flashPair_both)
  \<comment> \<open>the second pair: body 3 flashes again, the floor does not\<close>
  have s2_3: "objects ?s2 3 = Some ?w" using s2(1) by simp
  have ns2: "\<not> isStaticRef ?s2 3" "isStaticRef ?s2 0"
    using ns by (simp_all add: isStaticRef_flashBody)
  let ?s3 = "flashBody 3 ?s2"
  have s3: "objects ?s3 = (objects s)(3 \<mapsto> ?w, 4 \<mapsto> ?gw)"
    "timers ?s3 = [(100, 3, Some ''#FF00FF''), (100, 4, fillStyle (render g)),
                   (100, 3, Some ''#FFFFFF'')]"
    using flashBody_Some[OF s2_3] s2 ww by (simp_all add: fun_upd_twist)
  have p2: "flashPair (3, 0) ?s2 = ?s3" using ns2 by (simp add: flashPair_first)
  have h: "handleCollision [(3, 4), (3, 0)] s = ?s3"
    by (simp add: handleCollision_def p1 p2)
  \<comment> \<open>the three callbacks run in the order of their registration\<close>
  have fin: "objects (fold restoreColor
                [(d1, 3, Some ''#FF00FF''), (d2, 4, fillStyle (render g)), (d3, 3, Some ''#FFFFFF'')] u) 3
              = Some ?w"
    if u: "objects u = (objects s)(3 \<mapsto> ?w, 4 \<mapsto> ?gw)" for u d1 d2 d3
  proof -
    let ?r1 = "restoreColor (d1, 3, Some ''#FF00FF'') u"
    have u3: "objects u 3 = Some ?w" using u by simp
    have r1: "objects ?r1 = (objects u)(3 \<mapsto> ?w\<lparr>render := (render ?w)\<lparr>fillStyle := Some ''#FF00FF''\<rparr>\<rparr>)"
      by (rule restoreColor_Some[OF u3])
    have r1_4: "objects ?r1 4 = Some ?gw" using r1 u by simp
    let ?r2 = "restoreColor (d2, 4, fillStyle (render g)) ?r1"
    have r2: "objects ?r2 = (objects ?r1)(4 \<mapsto> ?gw\<lparr>render := (render ?gw)\<lparr>fillStyle := fillStyle (render g)\<rparr>\<rparr>)"
      by (rule restoreColor_Some[OF r1_4])
    have r2_3: "objects ?r2 3 = Some (?w\<lparr>render := (render ?w)\<lparr>fillStyle := Some ''#FF00FF''\<rparr>\<rparr>)"
      using r2 r1 by simp
    have "objects (restoreColor (d3, 3, Some ''#FFFFFF'') ?r2) 3 = Some ?w"
      using restoreColor_Some[OF r2_3, of d3 "Some ''#FFFFFF''"] by simp
    then show ?thesis by simp
  qed
  \<comment> \<open>both pairs in one event, the callbacks 100 ms later\<close>
  have due: "\<forall>t \<in> set (timers ?s3). fst t \<le> 100" using s3(2) by simp
  have one: "objects (advanceTo 100 (handleCollision [(3, 4), (3, 0)] s)) 3 = Some ?w"
    "timers (advanceTo 100 (handleCollision [(3, 4), (3, 0)] s)) = []"
    unfolding h advanceTo_all_due[OF due] using fin[OF s3(1)] by (simp_all add: s3(2))
  \<comment> \<open>the pairs in two events 50 ms apart\<close>
  have h1: "handleCollision [(3, 4)] s = ?s2" by (simp add: handleCollision_def p1)
  have nd: "\<forall>t \<in> set (timers ?s2). \<not> fst t \<le> 50" using s2(2) by simp
  let ?t1 = "?s2\<lparr>now := 50\<rparr>"
  have a50: "advanceTo 50 ?s2 = ?t1"
    unfolding advanceTo_none_due[OF nd] using s2(3) by simp
  have t1_3: "objects ?t1 3 = Some ?w" using s2(1) by simp
  have nt1: "\<not> isStaticRef ?t1 3" "isStaticRef ?t1 0"
    using ns2 by (simp_all add: isStaticRef_def)
  let ?t2 = "flashBody 3 ?t1"
  have t2: "objects ?t2 = (objects s)(3 \<mapsto> ?w, 4 \<mapsto> ?gw)"
    "timers ?t2 = [(100, 3, Some ''#FF00FF''), (100, 4, fillStyle (render g)),
                   (150, 3, Some ''#FFFFFF'')]"
    using flashBody_Some[OF t1_3] s2 ww by (simp_all add: fun_upd_twist)
  have h2: "handleCollision [(3, 0)] ?t1 = ?t2"
    using nt1 by (simp add: handleCollision_def flashPair_first)
  have due2: "\<forall>t \<in> set (timers ?t2). fst t \<le> 150" using t2(2) by simp
  have two: "objects (advanceTo 150 (handleCollision [(3, 0)] (advanceTo 50 (handleCollision [(3, 4)] s)))) 3
         = Some ?w"
    "timers (advanceTo 150 (handleCollision [(3, 0)] (advanceTo 50 (handleCollision [(3, 4)] s)))) = []"
    unfolding h1 a50 h2 advanceTo_all_due[OF due2] using fin[OF t2(1)] by (simp_all add: t2(2))
  from s(1,4) st(1) fm one two w show ?thesis by blast
qed

section \<open>Canvas component: the renderer\<close>

lemma lineLoop_step:
  "i < length vs \<Longrightarrow>
   lineLoop i vs p c = lineLoop (Suc i) vs p (ctx_lineTo (vx (vs ! i) - vx p) (vy (vs ! i) - vy p) c)"
  by (subst lineLoop.simps) simp

lemma lineLoop_stop: "\<not> i < length vs \<Longrightarrow> lineLoop i vs p c = c"
  by (subst lineLoop.simps) simp

lemma lineLoop_eq:
  "lineLoop i vs p c =
     c\<lparr>path := path c @
         map (\<lambda>v. LineTo (applyMatrix (transform (state c)) (vx v - vx p) (vy v - vy p)))
           (drop i vs)\<rparr>"
proof (induction "length vs - i" arbitrary: i c)
  case 0
  then show ?case by (simp add: lineLoop_stop)
next
  case (Suc d)
  then have lt: "i < length vs" by simp
  have d: "d = length vs - Suc i" using Suc.hyps(2) by simp
  have dr: "drop i vs = vs ! i # drop (Suc i) vs" using lt by (simp add: Cons_nth_drop_Suc)
  show ?case
    unfolding lineLoop_step[OF lt] Suc.hyps(1)[OF d] dr
    by (simp add: ctx_lineTo_def)
qed

lemma renderBody_static: "isStatic b \<Longrightarrow> renderBody b r c = Inr (b, r, c)"
  by (simp add: renderBody_def)

lemma setup_transform:
  assumes "transform (state c) = identityMatrix"
  shows "transform (state (ctx_rotate (angle b)
           (ctx_translate (vx (position b)) (vy (position b)) (ctx_save c))))
         = \<lparr>ma = cos (angle b), mb = sin (angle b), mc = - sin (angle b), md = cos (angle b),
            me = vx (position b), mf = vy (position b)\<rparr>"
  using assms
  by (simp add: ctx_rotate_def ctx_translate_def ctx_save_def identityMatrix_def Let_def)

lemma applyMatrix_setup:
  "applyMatrix \<lparr>ma = cos (angle b), mb = sin (angle b), mc = - sin (angle b), md = cos (angle b),
            me = vx (position b), mf = vy (position b)\<rparr> (vx v - vx (position b)) (vy v - vy (position b))
     = drawnVertex b v"
  by (simp add: applyMatrix_def drawnVertex_def algebra_simps)

text \<open>
  What the polygon branch paints for a non-static body with a fill colour, on a context
  whose transform is the identity: the closed path through \<open>drawnVertex b v\<close> for the
  vertices \<open>v\<close> of the body, filled and then stroked. Afterwards the drawing state is the
  one saved at the start.
\<close>

lemma renderBody_polygon:
  assumes "\<not> isStatic b" "\<not> falsy (fillStyle (render b))" "circleRadius b = 0"
    "vertices b = v0 # vs" "transform (state c) = identityMatrix"
  shows "\<exists>st. renderBody b r c =
           Inr (b, r,
             c\<lparr>path := MoveTo (drawnVertex b v0) # map (\<lambda>v. LineTo (drawnVertex b v)) vs @ [ClosePath],
               surface := surface c @
                 [Fill (MoveTo (drawnVertex b v0) # map (\<lambda>v. LineTo (drawnVertex b v)) vs @ [ClosePath]) st,
                  Stroke (MoveTo (drawnVertex b v0) # map (\<lambda>v. LineTo (drawnVertex b v)) vs @ [ClosePath]) st]\<rparr>)"
proof -
  let ?c3 = "ctx_rotate (angle b) (ctx_translate (vx (position b)) (vy (position b)) (ctx_save c))"
  let ?m = "\<lparr>ma = cos (angle b), mb = sin (angle b), mc = - sin (angle b), md = cos (angle b),
            me = vx (position b), mf = vy (position b)\<rparr>"
  have t3: "transform (state ?c3) = ?m" by (rule setup_transform[OF assms(5)])
  have sv: "saved ?c3 = state c # saved c" "path ?c3 = path c" "surface ?c3 = surface c"
    by (simp_all add: ctx_rotate_def ctx_translate_def ctx_save_def Let_def)
  define st4 where "st4 = (state ?c3)
                    \<lparr>ctxFillStyle := orDefault (fillStyle (render b)) (ctxFillStyle (state ?c3)),
                     ctxStrokeStyle := sc_strokeColor STYLE_CONFIG,
                     ctxLineWidth := sc_lineWidth STYLE_CONFIG,
                     shadowColor := sc_shadowColor STYLE_CONFIG,
                     shadowOffsetX := sc_shadowOffset STYLE_CONFIG,
                     shadowOffsetY := sc_shadowOffset STYLE_CONFIG,
                     shadowBlur := 0\<rparr>"
  define c4 where "c4 = ?c3\<lparr>state := st4\<rparr>"
  have t4: "transform (state c4) = ?m" "saved c4 = state c # saved c" "surface c4 = surface c"
    "state c4 = st4"
    using t3 sv by (simp_all add: c4_def st4_def)
  let ?p = "MoveTo (drawnVertex b v0) # map (\<lambda>v. LineTo (drawnVertex b v)) vs @ [ClosePath]"
  let ?c5 = "ctx_moveTo (vx v0 - vx (position b)) (vy v0 - vy (position b)) (ctx_beginPath c4)"
  have c5: "path ?c5 = [MoveTo (drawnVertex b v0)]" "transform (state ?c5) = ?m"
    using t4(1) by (simp_all add: ctx_moveTo_def ctx_beginPath_def applyMatrix_setup)
  let ?c6 = "ctx_closePath (lineLoop 1 (v0 # vs) (position b) ?c5)"
  have c6: "?c6 = c4\<lparr>path := ?p\<rparr>"
    unfolding lineLoop_eq using c5 t4(1)
    by (simp add: ctx_closePath_def ctx_moveTo_def ctx_beginPath_def applyMatrix_setup)
  have c7: "ctx_restore (ctx_stroke (ctx_fill (c4\<lparr>path := ?p\<rparr>)))
              = c\<lparr>path := ?p, surface := surface c @ [Fill ?p st4, Stroke ?p st4]\<rparr>"
    using t4 by (simp add: ctx_restore_def ctx_stroke_def ctx_fill_def c4_def sv
        ctx_rotate_def ctx_translate_def ctx_save_def Let_def)
  have "renderBody b r c = Inr (b, r, ctx_restore (ctx_stroke (ctx_fill ?c6)))"
    using assms(1-4) by (simp add: renderBody_def Let_def c4_def st4_def)
  then have "renderBody b r c
               = Inr (b, r, c\<lparr>path := ?p, surface := surface c @ [Fill ?p st4, Stroke ?p st4]\<rparr>)"
    unfolding c6 c7 .
  then show ?thesis by blast
qed

text \<open>
  The circle branch paints a full arc of the body's radius about the origin of the
  transform, which is the body's position.
\<close>

lemma renderBody_circle:
  assumes "\<not> isStatic b" "\<not> falsy (fillStyle (render b))" "circleRadius b \<noteq> 0"
    "transform (state c) = identityMatrix"
  shows "\<exists>st m. renderBody b r c =
           Inr (b, r,
             c\<lparr>path := [Arc m 0 0 (circleRadius b) 0 (pi * 2)],
               surface := surface c @
                 [Fill [Arc m 0 0 (circleRadius b) 0 (pi * 2)] st,
                  Stroke [Arc m 0 0 (circleRadius b) 0 (pi * 2)] st]\<rparr>)
         \<and> applyMatrix m 0 0 = position b"
proof -
  let ?c3 = "ctx_rotate (angle b) (ctx_translate (vx (position b)) (vy (position b)) (ctx_save c))"
  let ?m = "\<lparr>ma = cos (angle b), mb = sin (angle b), mc = - sin (angle b), md = cos (angle b),
            me = vx (position b), mf = vy (position b)\<rparr>"
  have t3: "transform (state ?c3) = ?m" by (rule setup_transform[OF assms(4)])
  have sv: "saved ?c3 = state c # saved c" "path ?c3 = path c" "surface ?c3 = surface c"
    by (simp_all add: ctx_rotate_def ctx_translate_def ctx_save_def Let_def)
  define st4 where "st4 = (state ?c3)
                    \<lparr>ctxFillStyle := orDefault (fillStyle (render b)) (ctxFillStyle (state ?c3)),
                     ctxStrokeStyle := sc_strokeColor STYLE_CONFIG,
                     ctxLineWidth := sc_lineWidth STYLE_CONFIG,
                     shadowColor := sc_shadowColor STYLE_CONFIG,
                     shadowOffsetX := sc_shadowOffset STYLE_CONFIG,
                     shadowOffsetY := sc_shadowOffset STYLE_CONFIG,
                     shadowBlur := 0\<rparr>"
  define c4 where "c4 = ?c3\<lparr>state := st4\<rparr>"
  have t4: "transform (state c4) = ?m" "saved c4 = state c # saved c" "surface c4 = surface c"
    "state c4 = st4"
    using t3 sv by (simp_all add: c4_def st4_def)
  let ?p = "[Arc ?m 0 0 (circleRadius b) 0 (pi * 2)]"
  have c5: "ctx_arc 0 0 (circleRadius b) 0 (pi * 2) (ctx_beginPath c4) = c4\<lparr>path := ?p\<rparr>"
    using t4(1) by (simp add: ctx_arc_def ctx_beginPath_def)
  have c7: "ctx_restore (ctx_stroke (ctx_fill (c4\<lparr>path := ?p\<rparr>)))
              = c\<lparr>path := ?p, surface := surface c @ [Fill ?p st4, Stroke ?p st4]\<rparr>"
    using t4 by (simp add: ctx_restore_def ctx_stroke_def ctx_fill_def c4_def sv
        ctx_rotate_def ctx_translate_def ctx_save_def Let_def)
  have "renderBody b r c
          = Inr (b, r, ctx_restore (ctx_stroke (ctx_fill
                  (ctx_arc 0 0 (circleRadius b) 0 (pi * 2) (ctx_beginPath c4)))))"
    using assms(1-3) by (simp add: renderBody_def Let_def c4_def st4_def)
  then have a: "renderBody b r c
               = Inr (b, r, c\<lparr>path := ?p, surface := surface c @ [Fill ?p st4, Stroke ?p st4]\<rparr>)"
    unfolding c5 c7 .
  have b: "applyMatrix ?m 0 0 = position b" by (simp add: applyMatrix_def)
  from a b show ?thesis by blast
qed

text \<open>
  Matter.js keeps \<open>vertices\<close> in world space: a vertex with local offset \<open>(lx, ly)\<close> is
  stored turned by the body's angle about its position. The renderer turns it once more,
  so it is painted at twice the angle.
\<close>

lemma drawnVertex_rotates_twice:
  assumes "v = \<lparr>vx = vx (position b) + lx * cos (angle b) - ly * sin (angle b),
                 vy = vy (position b) + lx * sin (angle b) + ly * cos (angle b)\<rparr>"
  shows "drawnVertex b v =
           \<lparr>vx = vx (position b) + lx * cos (2 * angle b) - ly * sin (2 * angle b),
            vy = vy (position b) + lx * sin (2 * angle b) + ly * cos (2 * angle b)\<rparr>"
proof -
  have c: "cos (2 * angle b) = cos (angle b) * cos (angle b) - sin (angle b) * sin (angle b)"
    by (simp add: cos_double power2_eq_square)
  have s: "sin (2 * angle b) = 2 * sin (angle b) * cos (angle b)"
    by (simp add: sin_double)
  show ?thesis
    unfolding assms drawnVertex_def c s by (simp add: algebra_simps)
qed

text \<open>
  C4 at a failing input: for the rectangle turned by \<open>pi / 2\<close>, whose world-space
  vertices are \<open>(110, 80), (110, 120), (90, 120), (90, 80)\<close>, the renderer fills and strokes
  the path \<open>(120, 110), (80, 110), (80, 90), (120, 90)\<close>: the rectangle lying flat, turned
  by \<open>pi\<close> in all, not the body's own outline.
\<close>

theorem polygon_drawn_rotated_twice:
  "\<exists>st. renderBody rotatedRect (\<lambda>i. 0) freshCtx =
          Inr (rotatedRect, (\<lambda>i. 0),
            freshCtx
              \<lparr>path := [MoveTo \<lparr>vx = 120, vy = 110\<rparr>, LineTo \<lparr>vx = 80, vy = 110\<rparr>,
                        LineTo \<lparr>vx = 80, vy = 90\<rparr>, LineTo \<lparr>vx = 120, vy = 90\<rparr>, ClosePath],
                surface :=
                  [Fill [MoveTo \<lparr>vx = 120, vy = 110\<rparr>, LineTo \<lparr>vx = 80, vy = 110\<rparr>,
                         LineTo \<lparr>vx = 80, vy = 90\<rparr>, LineTo \<lparr>vx = 120, vy = 90\<rparr>, ClosePath] st,
                   Stroke [MoveTo \<lparr>vx = 120, vy = 110\<rparr>, LineTo \<lparr>vx = 80, vy = 110\<rparr>,
                         LineTo \<lparr>vx = 80, vy = 90\<rparr>, LineTo \<lparr>vx = 120, vy = 90\<rparr>, ClosePath] st]\<rparr>)
     \<and> \<not> isStatic rotatedRect
     \<and> position rotatedRect = \<lparr>vx = 100, vy = 100\<rparr>
     \<and> angle rotatedRect = pi / 2
     \<and> vertices rotatedRect
         = [\<lparr>vx = 110, vy = 80\<rparr>, \<lparr>vx = 110, vy = 120\<rparr>, \<lparr>vx = 90, vy = 120\<rparr>,
            \<lparr>vx = 90, vy = 80\<rparr>]
     \<and> map (drawnVertex rotatedRect) (vertices rotatedRect) \<noteq> vertices rotatedRect"
proof -
  have pre: "\<not> isStatic rotatedRect" "\<not> falsy (fillStyle (render rotatedRect))"
    "circleRadius rotatedRect = 0"
    "vertices rotatedRect = \<lparr>vx = 110, vy = 80\<rparr> #
        [\<lparr>vx = 110, vy = 120\<rparr>, \<lparr>vx = 90, vy = 120\<rparr>, \<lparr>vx = 90, vy = 80\<rparr>]"
    "transform (state freshCtx) = identityMatrix"
    by (simp_all add: rotatedRect_def falsy_def freshCtx_def identityMatrix_def)
  have dv: "drawnVertex rotatedRect \<lparr>vx = 110, vy = 80\<rparr> = \<lparr>vx = 120, vy = 110\<rparr>"
    "drawnVertex rotatedRect \<lparr>vx = 110, vy = 120\<rparr> = \<lparr>vx = 80, vy = 110\<rparr>"
    "drawnVertex rotatedRect \<lparr>vx = 90, vy = 120\<rparr> = \<lparr>vx = 80, vy = 90\<rparr>"
    "drawnVertex rotatedRect \<lparr>vx = 90, vy = 80\<rparr> = \<lparr>vx = 120, vy = 90\<rparr>"
    by (simp_all add: drawnVertex_def rotatedRect_def)
  have fs: "surface freshCtx = []" by (simp add: freshCtx_def)
  let ?P = "[MoveTo \<lparr>vx = 120, vy = 110\<rparr>, LineTo \<lparr>vx = 80, vy = 110\<rparr>,
             LineTo \<lparr>vx = 80, vy = 90\<rparr>, LineTo \<lparr>vx = 120, vy = 90\<rparr>, ClosePath]"
  have p: "MoveTo (drawnVertex rotatedRect \<lparr>vx = 110, vy = 80\<rparr>)
             # map (\<lambda>v. LineTo (drawnVertex rotatedRect v))
                 [\<lparr>vx = 110, vy = 120\<rparr>, \<lparr>vx = 90, vy = 120\<rparr>, \<lparr>vx = 90, vy = 80\<rparr>]
             @ [ClosePath] = ?P"
    by (simp add: dv)
  from renderBody_polygon[OF pre, of "\<lambda>i. 0"]
  obtain st where r: "renderBody rotatedRect (\<lambda>i. 0) freshCtx =
          Inr (rotatedRect, (\<lambda>i. 0),
            freshCtx\<lparr>path := ?P, surface := [Fill ?P st, Stroke ?P st]\<rparr>)"
    unfolding p fs append_Nil by blast
  have rest: "position rotatedRect = \<lparr>vx = 100, vy = 100\<rparr>" "angle rotatedRect = pi / 2"
    "vertices rotatedRect
         = [\<lparr>vx = 110, vy = 80\<rparr>, \<lparr>vx = 110, vy = 120\<rparr>, \<lparr>vx = 90, vy = 120\<rparr>,
            \<lparr>vx = 90, vy = 80\<rparr>]"
    by (simp_all add: rotatedRect_def)
  have ne: "map (drawnVertex rotatedRect) (vertices rotatedRect) \<noteq> vertices rotatedRect"
    unfolding rest(3) by (simp add: dv)
  from r pre(1) rest ne show ?thesis by blast
qed

section \<open>Canvas component: spawning\<close>

lemma position_Bodies_create: "position (Bodies_create lib g x y opts) = \<lparr>vx = x, vy = y\<rparr>"
  by (simp add: Bodies_create_def)

lemma placesAt_createCircle: "placesAt createCircle"
  unfolding placesAt_def createCircle_eq by (simp add: position_Bodies_create) blast

lemma placesAt_createRectangle: "placesAt createRectangle"
  unfolding placesAt_def createRectangle_def randomInRange_eq getRandomColor_eq Math_random_def
  by (simp add: position_Bodies_create rdrop_rdrop) blast

lemma placesAt_createPolygon: "placesAt (createPolygon n)"
  unfolding placesAt_def createPolygon_def randomInRange_eq getRandomColor_eq Math_random_def
  by (simp add: position_Bodies_create rdrop_rdrop) blast

lemma placesAt_createStar: "placesAt (createStar n)"
  unfolding placesAt_def createStar_def randomInRange_eq getRandomColor_eq
  by (simp add: position_Bodies_create rdrop_rdrop Let_def) blast

lemma placesAt_createIrregularPolygon: "placesAt createIrregularPolygon"
  unfolding placesAt_def createIrregularPolygon_def randomInRange_eq getRandomColor_eq
    irregularLoop_eq
  by (simp add: position_Bodies_create rdrop_rdrop Let_def) blast

lemma placesAt_SHAPE_FACTORIES: "\<forall>f \<in> set SHAPE_FACTORIES. placesAt f"
  by (simp add: SHAPE_FACTORIES_def placesAt_createCircle placesAt_createRectangle
      placesAt_createPolygon placesAt_createStar placesAt_createIrregularPolygon
      createTriangle_def createPentagon_def createHexagon_def createOctagon_def
      create5PointStar_def create6PointStar_def)

text \<open>
  With doubles in \<open>[0, 1)\<close> as draws the index is in range, so \<open>createRandomShape\<close>
  returns a body, placed at \<open>(x, y)\<close>.
\<close>

lemma createRandomShape_placed:
  assumes "unitDraws r"
  shows "\<exists>b k. createRandomShape lib r x y = Inr (b, rdrop k r) \<and> position b = \<lparr>vx = x, vy = y\<rparr>"
proof -
  have u0: "0 \<le> r 0" "r 0 \<le> 1 - 1 / 2 ^ 53" using unitDraws_top[OF assms, of 0] by simp_all
  have n: "0 < length SHAPE_FACTORIES" "length SHAPE_FACTORIES \<le> 2 ^ 53"
    by (simp_all add: SHAPE_FACTORIES_def)
  let ?k = "nat \<lfloor>fl (r 0 * real (length SHAPE_FACTORIES))\<rfloor>"
  note rb = randomIndex_bounds[OF u0 n]
  have sel: "createRandomShape lib r x y = Inr ((SHAPE_FACTORIES ! ?k) lib (rdrop 1 r) x y)"
    using rb(1,2)
    by (simp add: createRandomShape_def createRandomShapeFrom_def Math_random_def jsIndex_def)
  have "placesAt (SHAPE_FACTORIES ! ?k)" using placesAt_SHAPE_FACTORIES rb(2) by simp
  then obtain b k where "(SHAPE_FACTORIES ! ?k) lib (rdrop 1 r) x y = (b, rdrop k (rdrop 1 r))"
    "position b = \<lparr>vx = x, vy = y\<rparr>"
    unfolding placesAt_def by blast
  with sel show ?thesis by (auto simp: rdrop_rdrop)
qed

lemma spawnLoop_stop:
  "\<not> int i < count \<Longrightarrow> spawnLoop i count width lib r engineRef = Inr (engineRef, r)"
  by (subst spawnLoop.simps) simp

lemma spawnLoop_step:
  assumes "int i < count" "unitDraws r"
  shows "\<exists>b k. spawnLoop i count width lib r engineRef
                 = spawnLoop (Suc i) count width lib (rdrop k r) (addBody engineRef b)
               \<and> position b = \<lparr>vx = r 0 * real width, vy = - 50\<rparr>"
proof -
  have u1: "unitDraws (rdrop 1 r)" using assms(2) by (rule unitDraws_rdrop)
  obtain shape k where c: "createRandomShape lib (rdrop 1 r) (r 0 * real width) (- 50)
                             = Inr (shape, rdrop k (rdrop 1 r))"
    and p: "position shape = \<lparr>vx = r 0 * real width, vy = - 50\<rparr>"
    using createRandomShape_placed[OF u1] by blast
  let ?r2 = "rdrop k (rdrop 1 r)"
  let ?v = "\<lparr>vx = (?r2 0 - 5 / 10) * 2, vy = rdrop 1 ?r2 0 * 2\<rparr>"
  have "spawnLoop i count width lib r engineRef
          = spawnLoop (Suc i) count width lib (rdrop 1 (rdrop 1 ?r2))
              (addBody engineRef (Body_setVelocity shape ?v))"
    using assms(1) by (subst spawnLoop.simps) (simp add: Math_random_def c Let_def del: One_nat_def)
  moreover have "rdrop 1 (rdrop 1 ?r2) = rdrop (k + 3) r"
    by (simp add: rdrop_rdrop numeral_3_eq_3)
  moreover have "position (Body_setVelocity shape ?v) = \<lparr>vx = r 0 * real width, vy = - 50\<rparr>"
    using p by (simp add: Body_setVelocity_def)
  ultimately show ?thesis by metis
qed

text \<open>
  The loop from round \<open>i\<close> on: it appends one new body per remaining round to the World,
  each at \<open>y = -50\<close> and \<open>0 \<le> x < width\<close>, and leaves the older bodies as they were.
\<close>

lemma spawnLoop_spec:
  assumes "0 < width"
  shows "unitDraws r \<Longrightarrow>
     \<exists>s' r'. spawnLoop i count width lib r (Some s) = Inr (Some s', r')
       \<and> worldBodies s' = worldBodies s @ [nextRef s..<nextRef s + (nat count - i)]
       \<and> nextRef s' = nextRef s + (nat count - i)
       \<and> (\<forall>ref. ref < nextRef s \<or> nextRef s' \<le> ref \<longrightarrow> objects s' ref = objects s ref)
       \<and> (\<forall>ref. nextRef s \<le> ref \<and> ref < nextRef s' \<longrightarrow>
             (\<exists>b. objects s' ref = Some b \<and> vy (position b) = - 50
                 \<and> 0 \<le> vx (position b) \<and> vx (position b) < real width))"
proof (induction "nat count - i" arbitrary: i r s)
  case 0
  then have "\<not> int i < count" by linarith
  then have "spawnLoop i count width lib r (Some s) = Inr (Some s, r)" by (rule spawnLoop_stop)
  with 0 show ?case by auto
next
  case (Suc d)
  then have lt: "int i < count" by linarith
  have d: "d = nat count - Suc i" using Suc.hyps(2) by simp
  have dd: "nat count - i = Suc d" using Suc.hyps(2) by simp
  obtain b k where step: "spawnLoop i count width lib r (Some s)
                 = spawnLoop (Suc i) count width lib (rdrop k r) (addBody (Some s) b)"
    and pb: "position b = \<lparr>vx = r 0 * real width, vy = - 50\<rparr>"
    using spawnLoop_step[OF lt Suc.prems] by blast
  let ?s1 = "s\<lparr>objects := (objects s)(nextRef s \<mapsto> b),
               worldBodies := worldBodies s @ [nextRef s],
               nextRef := Suc (nextRef s)\<rparr>"
  have ab: "addBody (Some s) b = Some ?s1" by (simp add: addBody_def)
  have u0: "0 \<le> r 0" "r 0 < 1" using Suc.prems by (simp_all add: unitDraws_def)
  have xb: "0 \<le> vx (position b)" "vx (position b) < real width" "vy (position b) = - 50"
    using pb u0 assms by simp_all
  obtain s' r' where res: "spawnLoop (Suc i) count width lib (rdrop k r) (Some ?s1) = Inr (Some s', r')"
    and wb: "worldBodies s' = worldBodies ?s1 @ [nextRef ?s1..<nextRef ?s1 + d]"
    and nr: "nextRef s' = nextRef ?s1 + d"
    and old: "\<forall>ref. ref < nextRef ?s1 \<or> nextRef s' \<le> ref \<longrightarrow> objects s' ref = objects ?s1 ref"
    and new: "\<forall>ref. nextRef ?s1 \<le> ref \<and> ref < nextRef s' \<longrightarrow>
             (\<exists>b. objects s' ref = Some b \<and> vy (position b) = - 50
                 \<and> 0 \<le> vx (position b) \<and> vx (position b) < real width)"
    using Suc.hyps(1)[OF d unitDraws_rdrop[OF Suc.prems], of k ?s1] unfolding d[symmetric]
    by blast
  have a: "spawnLoop i count width lib r (Some s) = Inr (Some s', r')"
    using step ab res by simp
  have b1: "worldBodies s' = worldBodies s @ [nextRef s..<nextRef s + (nat count - i)]"
    using wb by (simp add: dd upt_conv_Cons)
  have c1: "nextRef s' = nextRef s + (nat count - i)" using nr by (simp add: dd)
  have d1: "\<forall>ref. ref < nextRef s \<or> nextRef s' \<le> ref \<longrightarrow> objects s' ref = objects s ref"
  proof (intro allI impI)
    fix ref assume h: "ref < nextRef s \<or> nextRef s' \<le> ref"
    then have "ref < nextRef ?s1 \<or> nextRef s' \<le> ref" by auto
    then have "objects s' ref = objects ?s1 ref" using old by blast
    moreover have "ref \<noteq> nextRef s" using h nr by auto
    ultimately show "objects s' ref = objects s ref" by simp
  qed
  have e1: "\<forall>ref. nextRef s \<le> ref \<and> ref < nextRef s' \<longrightarrow>
             (\<exists>b. objects s' ref = Some b \<and> vy (position b) = - 50
                 \<and> 0 \<le> vx (position b) \<and> vx (position b) < real width)"
  proof (intro allI impI)
    fix ref assume h: "nextRef s \<le> ref \<and> ref < nextRef s'"
    show "\<exists>b. objects s' ref = Some b \<and> vy (position b) = - 50
                 \<and> 0 \<le> vx (position b) \<and> vx (position b) < real width"
    proof (cases "ref = nextRef s")
      case True
      then have "objects s' ref = objects ?s1 ref" using old by simp
      then have "objects s' ref = Some b" using True by simp
      with xb show ?thesis by blast
    next
      case False
      then have "nextRef ?s1 \<le> ref \<and> ref < nextRef s'" using h by simp
      then show ?thesis using new by blast
    qed
  qed
  from a b1 c1 d1 e1 show ?case by blast
qed

text \<open>
  C10: when the spawn effect runs with a non-zero \<open>spawnCount\<close>, the canvas present, width
  and height non-zero and the engine created, and every random draw is a double in
  \<open>[0, 1)\<close>, it adds \<open>N = floor (fl (u * 21)) + 30\<close> bodies to the World,
  \<open>30 \<le> N \<le> 50\<close>, each of them at \<open>y = -50\<close> with \<open>0 \<le> x < width\<close>, and touches no
  other body.
\<close>

theorem spawn_count_and_placement:
  assumes "unitDraws r" "spawnCount \<noteq> 0" "width \<noteq> 0" "height \<noteq> 0"
  shows "\<exists>N s' r'. spawnEffect spawnCount True width height lib r (Some s) = Inr (Some s', r')
           \<and> int N = \<lfloor>fl (r 0 * 21)\<rfloor> + 30 \<and> 30 \<le> N \<and> N \<le> 50
           \<and> length (worldBodies s') = length (worldBodies s) + N
           \<and> worldBodies s' = worldBodies s @ [nextRef s..<nextRef s + N]
           \<and> (\<forall>ref \<in> {nextRef s..<nextRef s + N}.
                 \<exists>b. objects s' ref = Some b \<and> vy (position b) = - 50
                   \<and> 0 \<le> vx (position b) \<and> vx (position b) < real width)
           \<and> (\<forall>ref. ref \<notin> {nextRef s..<nextRef s + N} \<longrightarrow> objects s' ref = objects s ref)"
proof -
  have u0: "0 \<le> r 0" "r 0 \<le> 1 - 1 / 2 ^ 53" using unitDraws_top[OF assms(1), of 0] by simp_all
  let ?count = "\<lfloor>fl (r 0 * 21)\<rfloor> + 30"
  let ?N = "nat ?count"
  have f0: "0 \<le> \<lfloor>fl (r 0 * 21)\<rfloor>" and f2: "nat \<lfloor>fl (r 0 * 21)\<rfloor> < 21"
    using randomIndex_bounds[OF u0, of 21] by simp_all
  have f1: "\<lfloor>fl (r 0 * 21)\<rfloor> < 21" using f0 f2 by linarith
  have n: "int ?N = ?count" "30 \<le> ?N" "?N \<le> 50" using f0 f1 by linarith+
  have w: "0 < width" using assms(3) by simp
  have eff: "spawnEffect spawnCount True width height lib r (Some s)
               = spawnLoop 0 ?count width lib (rdrop 1 r) (Some s)"
    using assms(2-4) by (simp add: spawnEffect_def Math_random_def Let_def)
  obtain s' r' where res: "spawnLoop 0 ?count width lib (rdrop 1 r) (Some s) = Inr (Some s', r')"
    and wb: "worldBodies s' = worldBodies s @ [nextRef s..<nextRef s + (?N - 0)]"
    and nr: "nextRef s' = nextRef s + (?N - 0)"
    and old: "\<forall>ref. ref < nextRef s \<or> nextRef s' \<le> ref \<longrightarrow> objects s' ref = objects s ref"
    and new: "\<forall>ref. nextRef s \<le> ref \<and> ref < nextRef s' \<longrightarrow>
             (\<exists>b. objects s' ref = Some b \<and> vy (position b) = - 50
                 \<and> 0 \<le> vx (position b) \<and> vx (position b) < real width)"
    using spawnLoop_spec[where i = 0 and count = ?count and lib = lib and s = s,
        OF w unitDraws_rdrop[OF assms(1)], of 1] by blast
  have a: "spawnEffect spawnCount True width height lib r (Some s) = Inr (Some s', r')"
    using eff res by simp
  have b: "worldBodies s' = worldBodies s @ [nextRef s..<nextRef s + ?N]" using wb by simp
  then have c: "length (worldBodies s') = length (worldBodies s) + ?N" by simp
  have d: "\<forall>ref \<in> {nextRef s..<nextRef s + ?N}.
                 \<exists>b. objects s' ref = Some b \<and> vy (position b) = - 50
                   \<and> 0 \<le> vx (position b) \<and> vx (position b) < real width"
    using new nr by simp
  have e: "\<forall>ref. ref \<notin> {nextRef s..<nextRef s + ?N} \<longrightarrow> objects s' ref = objects s ref"
    using old nr by (simp add: not_le)
  from a n b c d e show ?thesis by blast
qed

text \<open>
  Every draw 1/2 on the freshly created 800 by 600 world: 40 bodies join the three walls.
\<close>

theorem spawn_count_and_placement_witness:
  "unitDraws (\<lambda>i. 1 / 2)
   \<and> (\<exists>s s' r'. useMatterEffect CONFIG (\<lambda>g p a. []) True 800 600 = Some s
         \<and> length (worldBodies s) = 3
         \<and> spawnEffect 1 True 800 600 (\<lambda>g p a. []) (\<lambda>i. 1 / 2) (Some s) = Inr (Some s', r')
         \<and> length (worldBodies s') = 43
         \<and> (\<exists>b. objects s' 3 = Some b \<and> vy (position b) = - 50
               \<and> 0 \<le> vx (position b) \<and> vx (position b) < 800))"
proof -
  have u: "unitDraws (\<lambda>i. 1 / 2)" by (simp add: unitDraws_def fl_half)
  obtain s where s: "useMatterEffect CONFIG (\<lambda>g p a. []) True 800 600 = Some s"
    "worldBodies s = [0, 1, 2]" "nextRef s = 3"
    by (simp add: useMatterEffect_def Let_def)
  have e: "fl (21 / 2) = 21 / 2"
    using fl_eval[of 3 "21 / 2"] by (simp add: roundEven_def)
  have f: "\<lfloor>fl ((1 / 2 :: real) * 21)\<rfloor> + 30 = 40" by (simp add: e)
  from spawn_count_and_placement[OF u, of 1 800 600 "\<lambda>g p a. []" s]
  obtain N s' r' where r: "spawnEffect 1 True 800 600 (\<lambda>g p a. []) (\<lambda>i. 1 / 2) (Some s) = Inr (Some s', r')"
    and n: "int N = \<lfloor>fl ((1 / 2 :: real) * 21)\<rfloor> + 30"
    and l: "length (worldBodies s') = length (worldBodies s) + N"
    and p: "\<forall>ref \<in> {nextRef s..<nextRef s + N}.
                 \<exists>b. objects s' ref = Some b \<and> vy (position b) = - 50
                   \<and> 0 \<le> vx (position b) \<and> vx (position b) < real 800"
    by auto
  have N: "N = 40" using n f by simp
  have l': "length (worldBodies s') = 43" using l s(2) N by simp
  have "(3::nat) \<in> {nextRef s..<nextRef s + N}" using s(3) N by simp
  with p have b: "\<exists>b. objects s' 3 = Some b \<and> vy (position b) = - 50
               \<and> 0 \<le> vx (position b) \<and> vx (position b) < 800"
    by fastforce
  have l3: "length (worldBodies s) = 3" using s(2) by simp
  from u s(1) l3 r l' b show ?thesis by blast
qed


end
